theory Spec2Isabelle
  imports Complex_Main "HOL-Library.Product_Lexorder"
begin

section \<open>The job table and the store session\<close>

text \<open>
  A row of the job table, with the columns the scheduler reads and writes
  (\<^verbatim>\<open>tuna/miopen/miopen_lib.py\<close> builds its conditions over \<open>session\<close>, \<open>valid\<close>,
  \<open>reason\<close>, \<open>retries\<close>, \<open>state\<close>, \<open>fin_step\<close> and orders by \<open>retries\<close>, \<open>config\<close>).
  Python integers are \<open>int\<close>; the primary key \<open>id\<close> is called \<open>jid\<close> here.
\<close>

record job =
  jid :: nat
  config :: int
  session :: int
  state :: string
  valid :: int
  retries :: int
  reason :: string
  fin_step :: string
  result :: string
  gpu_id :: int

type_synonym job_table = "job list"

text \<open>
  A store session: \<open>committed\<close> is what the store holds durably, \<open>pending\<close> is the view of
  the open transaction. \<open>session.commit()\<close> makes the pending view durable,
  \<open>session.rollback()\<close> discards it.
\<close>

record 'db dbsession =
  committed :: 'db
  pending :: 'db

definition commit :: "'db dbsession \<Rightarrow> 'db dbsession" where
  "commit s = s\<lparr>committed := pending s\<rparr>"

definition rollback :: "'db dbsession \<Rightarrow> 'db dbsession" where
  "rollback s = s\<lparr>pending := committed s\<rparr>"

text \<open>The exceptions the scheduler distinguishes.\<close>

datatype exn =
    OperationalError
  | PyMysqlOperationalError
  | IntegrityError
  | DataError
  | UnboundLocalError
  | AttributeError
  | IndexError
  | OtherError string

text \<open>What a call does: it returns a value or raises.\<close>

datatype 'a outcome = Returned 'a | Raised exn

definition job_row :: "job_table \<Rightarrow> nat \<Rightarrow> job option" where
  "job_row tbl i = find (\<lambda>r. jid r = i) tbl"

section \<open>Result ingestion (\<^verbatim>\<open>MIOpen.process_eval_results\<close>)\<close>

definition MAX_ERRORED_JOB_RETRIES :: int where
  "MAX_ERRORED_JOB_RETRIES = 3"

text \<open>
  Modelled from the spec: \<^verbatim>\<open>set_job_state\<close> of \<^verbatim>\<open>tuna.miopen.utils.helper\<close> is not among
  the sources. The spec has a transition set the job's \<open>state\<close>, overwrite the \<open>result\<close>
  text, and add one to \<open>retries\<close> when the transition is a retry; the call sites pass
  \<^verbatim>\<open>(session, job, dbt, state, increment_retries, result=...)\<close>, with
  \<^verbatim>\<open>increment_retries\<close> absent (false) except on the revert to \<open>compiled\<close>. The update is
  written the way \<^verbatim>\<open>gen_update_query\<close> of \<^verbatim>\<open>tuna/utils/db_utility.py\<close> writes one:
  the listed columns of the row \<^verbatim>\<open>WHERE id = job.id\<close> take the values of the job object,
  and the update is committed. The job object is the one rebuilt from the context, so
  \<open>retries\<close> is written from the context's value. Returns the session and the job object.
\<close>

definition set_job_state ::
  "job_table dbsession \<Rightarrow> job \<Rightarrow> string \<Rightarrow> bool \<Rightarrow> string \<Rightarrow> job_table dbsession \<times> job" where
  "set_job_state sess jb st increment_retries res =
     (let jb1 = jb\<lparr>state := st, result := res\<rparr>;
          jb2 = (if increment_retries then jb1\<lparr>retries := retries jb1 + 1\<rparr> else jb1);
          upd = (\<lambda>row. if jid row = jid jb2
                   then row\<lparr>state := state jb2, result := result jb2,
                            retries := (if increment_retries then retries jb2 else retries row)\<rparr>
                   else row)
      in (commit (sess\<lparr>pending := map upd (pending sess)\<rparr>), jb2))"

text \<open>
  The \<^verbatim>\<open>except (OperationalError, IntegrityError)\<close> clause of \<^verbatim>\<open>process_eval_results\<close>
  (lines 809-812): roll back, then set the job to \<open>errored\<close>; the function then returns
  \<open>True\<close>. Any other exception leaves the function.
\<close>

definition eval_except ::
  "exn \<Rightarrow> job_table dbsession \<Rightarrow> job \<Rightarrow> string \<Rightarrow> bool outcome \<times> job_table dbsession" where
  "eval_except e sess jb result_str =
     (if e = OperationalError \<or> e = IntegrityError
      then (Returned True, fst (set_job_state (rollback sess) jb ''errored'' False result_str))
      else (Raised e, sess))"

text \<open>
  The state transition of \<^verbatim>\<open>process_eval_results\<close> (lines 792-808), run inside the
  \<^verbatim>\<open>try\<close>. \<open>clean_cache_table\<close> is not among the sources; it is given the tables and the
  job but not the session, and is taken as a parameter that says whether it raises.
\<close>

definition eval_transition ::
  "(job \<Rightarrow> exn option) \<Rightarrow> job_table dbsession \<Rightarrow> job \<Rightarrow> bool \<Rightarrow> string
     \<Rightarrow> bool outcome \<times> job_table dbsession" where
  "eval_transition clean_cache_table sess jb failed_job result_str =
     (let orig_state = ''compiled'' in
      if failed_job then
        (if retries jb \<ge> MAX_ERRORED_JOB_RETRIES - 1
         then (Returned True, fst (set_job_state sess jb ''errored'' False result_str))
         else (Returned True, fst (set_job_state sess jb orig_state True result_str)))
      else
        (case set_job_state sess jb ''evaluated'' False result_str of
           (sess1, jb1) \<Rightarrow>
             (case clean_cache_table jb1 of
                None \<Rightarrow> (Returned True, sess1)
              | Some e \<Rightarrow> eval_except e sess1 jb1 result_str)))"

text \<open>
  \<^verbatim>\<open>process_eval_results(session, fin_json, context)\<close>. The payload \<open>fin_json\<close> is
  \<open>None\<close> or a dictionary, kept as its list of (key, value) pairs; \<open>ctx_job\<close> is
  \<^verbatim>\<open>context['job']\<close>. \<^verbatim>\<open>process_fdb_w_kernels\<close> and \<^verbatim>\<open>get_fin_result\<close> are not among the
  sources and are parameters: the first is given the result key it is called with and
  the session, and returns a status or raises, possibly after writing to the session;
  the second turns a status into \<^verbatim>\<open>(success, result_str)\<close>. A non-empty payload with
  neither result key reaches \<^verbatim>\<open>get_fin_result(status)\<close> with \<open>status\<close> unbound.
\<close>

definition process_eval_results ::
  "(string \<Rightarrow> job_table dbsession \<Rightarrow> 'status outcome \<times> job_table dbsession)
     \<Rightarrow> ('status \<Rightarrow> bool \<times> string) \<Rightarrow> (job \<Rightarrow> exn option)
     \<Rightarrow> job_table dbsession \<Rightarrow> (string \<times> 'v) list option \<Rightarrow> job
     \<Rightarrow> bool outcome \<times> job_table dbsession" where
  "process_eval_results process_fdb_w_kernels get_fin_result clean_cache_table
       sess fin_json ctx_job =
     (let jb = ctx_job in
      case fin_json of
        None \<Rightarrow> eval_transition clean_cache_table sess jb True ''''
      | Some d \<Rightarrow>
          if d = [] then eval_transition clean_cache_table sess jb True ''''
          else
            (let called =
               (if ''miopen_find_eval_result'' \<in> set (map fst d)
                then process_fdb_w_kernels ''miopen_find_eval_result'' sess
                else if ''miopen_perf_eval_result'' \<in> set (map fst d)
                then process_fdb_w_kernels ''miopen_perf_eval_result'' sess
                else (Raised UnboundLocalError, sess))
             in case called of
                  (Raised e, sess1) \<Rightarrow> eval_except e sess1 jb ''''
                | (Returned status, sess1) \<Rightarrow>
                    (case get_fin_result status of
                       (success, result_str) \<Rightarrow>
                         eval_transition clean_cache_table sess1 jb (\<not> success) result_str)))"

section \<open>A poll cycle for one job\<close>

text \<open>
  One round of the eval phase for the job with identifier \<open>i\<close>: the context's job is the
  row as the session sees it, and the worker's payload is ingested. (The claim that
  marks the row \<open>eval_start\<close> is done by \<^verbatim>\<open>get_jobs\<close> of the interface class, which is
  not among the sources; \<^verbatim>\<open>process_eval_results\<close> does not read the job's state.)
\<close>

definition eval_round ::
  "(string \<Rightarrow> job_table dbsession \<Rightarrow> 'status outcome \<times> job_table dbsession)
     \<Rightarrow> ('status \<Rightarrow> bool \<times> string) \<Rightarrow> (job \<Rightarrow> exn option)
     \<Rightarrow> (string \<times> 'v) list option \<Rightarrow> nat \<Rightarrow> job_table dbsession \<Rightarrow> job_table dbsession" where
  "eval_round process_fdb_w_kernels get_fin_result clean_cache_table fin_json i sess =
     (case job_row (pending sess) i of
        None \<Rightarrow> sess
      | Some r \<Rightarrow>
          snd (process_eval_results process_fdb_w_kernels get_fin_result clean_cache_table
                 sess fin_json r))"

text \<open>The payload carries one of the two eval result keys.\<close>

definition has_eval_key :: "(string \<times> 'v) list option \<Rightarrow> bool" where
  "has_eval_key fin_json =
     (case fin_json of
        None \<Rightarrow> False
      | Some d \<Rightarrow> ''miopen_find_eval_result'' \<in> set (map fst d)
                  \<or> ''miopen_perf_eval_result'' \<in> set (map fst d))"

text \<open>
  \<open>reports pfk gfr b\<close>: the find-db step returns a status, writes nothing to the job
  table, and \<^verbatim>\<open>get_fin_result\<close> reads success \<open>b\<close> from the status.
\<close>

definition reports ::
  "(string \<Rightarrow> job_table dbsession \<Rightarrow> 'status outcome \<times> job_table dbsession)
     \<Rightarrow> ('status \<Rightarrow> bool \<times> string) \<Rightarrow> bool \<Rightarrow> bool" where
  "reports pfk gfr b = (\<forall>k s. \<exists>st. pfk k s = (Returned st, s) \<and> fst (gfr st) = b)"

text \<open>
  An evaluation fails: the payload is empty, or it is an eval result whose status
  reports no success. It succeeds: it is an eval result whose status reports success
  (and the cache clean-up does not raise).
\<close>

definition eval_fails ::
  "(string \<Rightarrow> job_table dbsession \<Rightarrow> 'status outcome \<times> job_table dbsession)
     \<Rightarrow> ('status \<Rightarrow> bool \<times> string) \<Rightarrow> (string \<times> 'v) list option \<Rightarrow> bool" where
  "eval_fails pfk gfr fin_json =
     (fin_json = None \<or> fin_json = Some [] \<or> (has_eval_key fin_json \<and> reports pfk gfr False))"

definition eval_succeeds ::
  "(string \<Rightarrow> job_table dbsession \<Rightarrow> 'status outcome \<times> job_table dbsession)
     \<Rightarrow> ('status \<Rightarrow> bool \<times> string) \<Rightarrow> (job \<Rightarrow> exn option)
     \<Rightarrow> (string \<times> 'v) list option \<Rightarrow> bool" where
  "eval_succeeds pfk gfr cct fin_json =
     (has_eval_key fin_json \<and> reports pfk gfr True \<and> (\<forall>j. cct j = None))"

text \<open>The fields of a job row that the retry rule is about.\<close>

definition state_retries :: "job_table dbsession \<Rightarrow> nat \<Rightarrow> (string \<times> int) option" where
  "state_retries sess i = map_option (\<lambda>r. (state r, retries r)) (job_row (committed sess) i)"

section \<open>Example inputs\<close>

definition cx_job :: job where
  "cx_job = \<lparr>jid = 1, config = 7, session = 1, state = ''eval_start'', valid = 1, retries = 0,
     reason = ''tune'', fin_step = ''miopen_find_eval'', result = [], gpu_id = 0\<rparr>"

definition cx_sess :: "job_table dbsession" where
  "cx_sess = \<lparr>committed = [cx_job], pending = [cx_job]\<rparr>"

text \<open>A find-db step that meets lock contention, and one that returns a status.\<close>

definition fdb_contention ::
  "string \<Rightarrow> job_table dbsession \<Rightarrow> bool outcome \<times> job_table dbsession" where
  "fdb_contention k s = (Raised OperationalError, s)"

definition fdb_reports ::
  "bool \<Rightarrow> string \<Rightarrow> job_table dbsession \<Rightarrow> bool outcome \<times> job_table dbsession" where
  "fdb_reports b k s = (Returned b, s)"

definition fin_result_of :: "bool \<Rightarrow> bool \<times> string" where
  "fin_result_of b = (b, if b then ''ok'' else ''no result'')"

definition cache_cleaned :: "job \<Rightarrow> exn option" where
  "cache_cleaned j = None"

definition eval_payload :: "(string \<times> unit) list option" where
  "eval_payload = Some [(''miopen_find_eval_result'', ())]"

text \<open>
  A session with two jobs, and a find-db step that has written to the session (to
  every row's state and retries) when it meets lock contention.
\<close>

definition other_job :: job where
  "other_job = \<lparr>jid = 2, config = 8, session = 1, state = ''compiled'', valid = 1, retries = 1,
     reason = ''tune'', fin_step = ''miopen_find_eval'', result = ''ok'', gpu_id = 0\<rparr>"

definition two_job_sess :: "job_table dbsession" where
  "two_job_sess = \<lparr>committed = [cx_job, other_job], pending = [cx_job, other_job]\<rparr>"

definition half_written :: "job_table dbsession" where
  "half_written = two_job_sess\<lparr>pending :=
     map (\<lambda>r. r\<lparr>state := ''evaluated'', retries := retries r + 5\<rparr>) (pending two_job_sess)\<rparr>"

definition fdb_writes_then_contention ::
  "string \<Rightarrow> job_table dbsession \<Rightarrow> bool outcome \<times> job_table dbsession" where
  "fdb_writes_then_contention k s =
     (Raised OperationalError,
      s\<lparr>pending := map (\<lambda>r. r\<lparr>state := ''evaluated'', retries := retries r + 5\<rparr>) (pending s)\<rparr>)"

section \<open>The job claim protocol (\<^verbatim>\<open>get_job_objs\<close>, \<^verbatim>\<open>compose_work_objs\<close>)\<close>

text \<open>
  The conditions of the \<^verbatim>\<open>WHERE\<close> clause. The code builds each as text
  (\<^verbatim>\<open>f"session={dbt.session.id}"\<close>, \<^verbatim>\<open>"valid=1"\<close>, \<^verbatim>\<open>f"reason='{label}'"\<close>,
  \<^verbatim>\<open>f"retries<{self.max_job_retries}"\<close>, \<^verbatim>\<open>"state in (...)"\<close>,
  \<^verbatim>\<open>f"fin_step like '%{fin_steps[0]}%'"\<close>, \<^verbatim>\<open>"fin_step='not_fin'"\<close>) and joins them with
  \<^verbatim>\<open>AND\<close>; here each is kept as the clause it was built to be, with its value compared
  as the exact string it is. The code pastes the label, the fin step and the states
  into the text as they are, so a clause is the clause it was built to be only when
  its value is \<open>plain\<close>: free of the quote and of the backslash, which end or escape a
  string of the statement.
\<close>

definition plain :: "string \<Rightarrow> bool" where
  "plain s = (CHR 0x27 \<notin> set s \<and> CHR 0x5C \<notin> set s)"

datatype cond =
    Session_eq int
  | Valid_eq_1
  | Reason_eq string
  | Retries_lt int
  | State_in "string list"
  | Fin_step_like string
  | Fin_step_eq string

text \<open>
  The store's \<^verbatim>\<open>LIKE\<close>: \<open>%\<close> matches any run of characters, \<open>_\<close> any one character.
\<close>

fun sql_like :: "string \<Rightarrow> string \<Rightarrow> bool" where
  "sql_like [] t = (t = [])"
| "sql_like (p # ps) [] = (p = CHR ''%'' \<and> sql_like ps [])"
| "sql_like (p # ps) (c # cs) =
     (if p = CHR ''%'' then sql_like ps (c # cs) \<or> sql_like (p # ps) cs
      else (p = CHR ''_'' \<or> p = c) \<and> sql_like ps cs)"

fun cond_holds :: "cond \<Rightarrow> job \<Rightarrow> bool" where
  "cond_holds (Session_eq sid) r = (session r = sid)"
| "cond_holds Valid_eq_1 r = (valid r = 1)"
| "cond_holds (Reason_eq l) r = (reason r = l)"
| "cond_holds (Retries_lt m) r = (retries r < m)"
| "cond_holds (State_in sts) r = (state r \<in> set sts)"
| "cond_holds (Fin_step_like s) r = sql_like (CHR ''%'' # s @ ''%'') (fin_step r)"
| "cond_holds (Fin_step_eq s) r = (fin_step r = s)"

text \<open>
  \<^verbatim>\<open>str(find_state).strip('{').strip('}')\<close> renders a non-empty set of states as a
  comma-separated list of quoted names; the empty set renders as \<^verbatim>\<open>set()\<close>, which is
  no list of values, so the statement is rejected by the store.
\<close>

fun cond_well_formed :: "cond \<Rightarrow> bool" where
  "cond_well_formed (State_in sts) = (sts \<noteq> [])"
| "cond_well_formed c = True"

text \<open>The values pasted into the clause are plain.\<close>

fun cond_plain :: "cond \<Rightarrow> bool" where
  "cond_plain (Reason_eq l) = plain l"
| "cond_plain (State_in sts) = list_all plain sts"
| "cond_plain (Fin_step_like s) = plain s"
| "cond_plain (Fin_step_eq s) = plain s"
| "cond_plain c = True"

text \<open>
  The statement \<^verbatim>\<open>SELECT ... WHERE conds ORDER BY retries,config ASC [LIMIT n] FOR UPDATE
  SKIP LOCKED\<close>: its conditions and its limit, if it has one.
\<close>

record select_query =
  conds :: "cond list"
  limit :: "int option"

text \<open>
  The store as a claimant sees it: the job table, the identifiers of the rows other
  transactions hold locked, whether the connection works, and \<open>reads_pasted\<close>: what the
  store makes of a statement into which a value that is not plain was pasted. Such a
  statement is not the one the conditions were built to be, and only the store's own
  reading of the text says what it returns.
\<close>

record store =
  table :: job_table
  locked :: "nat list"
  reachable :: bool
  reads_pasted :: "select_query \<Rightarrow> job list outcome"

text \<open>
  \<^verbatim>\<open>session.execute(query)\<close> for such a statement: the rows that satisfy every
  condition and are not locked by others, in ascending order of (retries, config)
  (rows with equal keys in table order), cut to the limit. It raises when the
  connection fails or the statement is malformed (a negative limit included). A
  statement with a pasted value that is not plain is left to the store's reading.
\<close>

definition session_execute :: "store \<Rightarrow> select_query \<Rightarrow> job list outcome" where
  "session_execute st q =
     (if \<not> reachable st then Raised OperationalError
      else if \<not> list_all cond_plain (conds q) then reads_pasted st q
      else if \<not> list_all cond_well_formed (conds q)
         \<or> (case limit q of None \<Rightarrow> False | Some n \<Rightarrow> n < 0)
      then Raised OperationalError
      else
        (let hits = filter (\<lambda>r. jid r \<notin> set (locked st) \<and> list_all (\<lambda>c. cond_holds c r) (conds q))
                      (table st);
             ordered = sort_key (\<lambda>r. (retries r, config r)) hits
         in Returned (case limit q of None \<Rightarrow> ordered | Some n \<Rightarrow> take (nat n) ordered)))"

text \<open>
  \<^verbatim>\<open>get_job_rows\<close> (\<^verbatim>\<open>tuna/utils/db_utility.py\<close>): any exception of the execution is
  caught and logged, and \<open>None\<close> is returned.
\<close>

definition get_job_rows :: "store \<Rightarrow> select_query \<Rightarrow> job list option" where
  "get_job_rows st q =
     (case session_execute st q of
        Raised ex \<Rightarrow> None
      | Returned ret \<Rightarrow> Some ret)"

text \<open>
  \<^verbatim>\<open>db_rows_to_obj\<close>: one object per row, in the order of the rows, with the selected
  columns as attributes. The rows of the model carry the selected columns already.
\<close>

definition db_rows_to_obj :: "job list \<Rightarrow> job list" where
  "db_rows_to_obj ret = map (\<lambda>row. row) ret"

text \<open>
  \<^verbatim>\<open>gen_select_objs\<close>: \<open>None\<close> when \<^verbatim>\<open>get_job_rows\<close> returned \<open>None\<close>, else the objects of
  the rows (a result cursor is true in \<^verbatim>\<open>if ret:\<close> even when it has no rows).
\<close>

definition gen_select_objs :: "store \<Rightarrow> select_query \<Rightarrow> job list option" where
  "gen_select_objs st q =
     (case get_job_rows st q of
        None \<Rightarrow> None
      | Some ret \<Rightarrow> Some (db_rows_to_obj ret))"

text \<open>
  \<^verbatim>\<open>compose_work_objs(session, conds, dbt, job_attr, claim_num, fin_steps)\<close>.
  \<^verbatim>\<open>if fin_steps:\<close> holds for a non-empty list (lines 520-523), \<^verbatim>\<open>if claim_num:\<close> for a
  number other than zero (lines 528-531).
\<close>

definition fin_step_cond :: "string list option \<Rightarrow> cond" where
  "fin_step_cond fin_steps =
     (case fin_steps of
        Some (s # ss) \<Rightarrow> Fin_step_like s
      | _ \<Rightarrow> Fin_step_eq ''not_fin'')"

definition claim_limit :: "int option \<Rightarrow> int option" where
  "claim_limit claim_num =
     (case claim_num of
        None \<Rightarrow> None
      | Some n \<Rightarrow> if n \<noteq> 0 then Some n else None)"

definition compose_work_objs ::
  "store \<Rightarrow> cond list \<Rightarrow> int option \<Rightarrow> string list option \<Rightarrow> job list option" where
  "compose_work_objs st cnds claim_num fin_steps =
     gen_select_objs st \<lparr>conds = cnds @ [fin_step_cond fin_steps], limit = claim_limit claim_num\<rparr>"

text \<open>
  \<^verbatim>\<open>get_job_objs(session, find_state, label, dbt, job_attr, claim_num, fin_steps)\<close>.
  \<open>session_id\<close> is \<^verbatim>\<open>dbt.session.id\<close>; \<open>max_job_retries\<close> is the attribute of the
  interface class, which is not among the sources, and is a parameter. \<^verbatim>\<open>if label:\<close>
  holds for a non-empty string. The label is pasted as it is (line 495): the clause
  built from it is \<open>Reason_eq\<close> of the label, which the execution reads as that
  condition only for a plain label.
\<close>

definition get_job_objs ::
  "int \<Rightarrow> store \<Rightarrow> string list \<Rightarrow> string option \<Rightarrow> int \<Rightarrow> int option \<Rightarrow> string list option
     \<Rightarrow> job list option" where
  "get_job_objs max_job_retries st find_state label session_id claim_num fin_steps =
     (let cnds0 = [Session_eq session_id, Valid_eq_1];
          cnds1 = (case label of
                     Some (c # cs) \<Rightarrow> cnds0 @ [Reason_eq (c # cs)]
                   | _ \<Rightarrow> cnds0);
          cnds2 = cnds1 @ [Retries_lt max_job_retries];
          cnds3 = cnds2 @ [State_in find_state]
      in compose_work_objs st cnds3 claim_num fin_steps)"


text \<open>The states, the label and the first fin step of a claim are plain.\<close>

definition plain_claim :: "string list \<Rightarrow> string option \<Rightarrow> string list option \<Rightarrow> bool" where
  "plain_claim find_state label fin_steps =
     (list_all plain find_state
      \<and> (case label of Some l \<Rightarrow> plain l | None \<Rightarrow> True)
      \<and> (case fin_steps of Some (s # ss) \<Rightarrow> plain s | _ \<Rightarrow> True))"

text \<open>A store that rejects every statement with a pasted value that is not plain.\<close>

definition rejects_pasted :: "select_query \<Rightarrow> job list outcome" where
  "rejects_pasted q = Raised OperationalError"

text \<open>Example: jobs with retries 2, 0, 1 on the configs A, B, C.\<close>

definition cfg_A :: int where "cfg_A = 1"
definition cfg_B :: int where "cfg_B = 2"
definition cfg_C :: int where "cfg_C = 3"

definition job_on :: "nat \<Rightarrow> int \<Rightarrow> int \<Rightarrow> job" where
  "job_on i cfg n = \<lparr>jid = i, config = cfg, session = 1, state = ''new'', valid = 1, retries = n,
     reason = ''tune'', fin_step = ''not_fin'', result = [], gpu_id = 0\<rparr>"

definition abc_store :: store where
  "abc_store =
     \<lparr>table = [job_on 1 cfg_A 2, job_on 2 cfg_B 0, job_on 3 cfg_C 1], locked = [], reachable = True,
      reads_pasted = rejects_pasted\<rparr>"

text \<open>
  Example: the label \<^verbatim>\<open>x' OR '1'='1\<close>. Pasted into \<^verbatim>\<open>reason='{label}'\<close> it makes the clause
  \<^verbatim>\<open>... AND reason='x' OR '1'='1' AND ...\<close>; \<^verbatim>\<open>AND\<close> binds tighter than \<^verbatim>\<open>OR\<close>, so the
  store returns the rows that satisfy the conditions before the label and have the
  reason \<open>x\<close>, or satisfy the conditions after the label. \<open>reads_or_label\<close> is that
  reading, over a table and the locked rows; \<open>stray_job\<close> is a row that is not valid,
  of another session and with another reason.
\<close>

definition or_label :: string where
  "or_label = ''x'' @ [CHR 0x27] @ '' OR '' @ [CHR 0x27] @ ''1'' @ [CHR 0x27] @ ''=''
     @ [CHR 0x27] @ ''1''"

definition reads_or_label :: "job_table \<Rightarrow> nat list \<Rightarrow> select_query \<Rightarrow> job list outcome" where
  "reads_or_label tbl lck q =
     (case dropWhile (\<lambda>c. c \<noteq> Reason_eq or_label) (conds q) of
        [] \<Rightarrow> Raised OperationalError
      | c # after \<Rightarrow>
          (let before = takeWhile (\<lambda>c. c \<noteq> Reason_eq or_label) (conds q);
               hits = filter (\<lambda>r. jid r \<notin> set lck
                         \<and> ((list_all (\<lambda>c. cond_holds c r) before \<and> reason r = ''x'')
                            \<or> list_all (\<lambda>c. cond_holds c r) after)) tbl;
               ordered = sort_key (\<lambda>r. (retries r, config r)) hits
           in Returned (case limit q of None \<Rightarrow> ordered | Some n \<Rightarrow> take (nat n) ordered)))"

definition stray_job :: job where
  "stray_job = \<lparr>jid = 9, config = 4, session = 2, state = ''new'', valid = 0, retries = 0,
     reason = ''other'', fin_step = ''not_fin'', result = [], gpu_id = 0\<rparr>"

definition or_store :: store where
  "or_store = \<lparr>table = [stray_job], locked = [], reachable = True,
     reads_pasted = reads_or_label [stray_job] []\<rparr>"

section \<open>The retry helper (\<^verbatim>\<open>session_retry\<close>, \<^verbatim>\<open>tuna/utils/db_utility.py\<close>)\<close>

text \<open>
  \<^verbatim>\<open>random.randint(a, b)\<close>: a number from \<open>a\<close> to \<open>b\<close>, both included, drawn here from a
  raw random number \<open>x\<close>.
\<close>

definition randint :: "nat \<Rightarrow> nat \<Rightarrow> nat \<Rightarrow> nat" where
  "randint a b x = a + x mod (b - a + 1)"

text \<open>
  What \<^verbatim>\<open>session_retry\<close> hands back: the value \<^verbatim>\<open>actuator(callback)\<close> returned, \<open>False\<close>,
  or an exception it does not catch.
\<close>

datatype 'a retried = Gave 'a | Gave_False | Threw exn

text \<open>
  A run of the helper: what it handed back, the session it leaves, the sleeps it
  took (seconds, in order), and the number of times it called the actuator.
\<close>

record ('a, 'db) retry_run =
  handed :: "'a retried"
  session_after :: "'db dbsession"
  sleeps :: "nat list"
  attempts :: nat

text \<open>
  The loop \<^verbatim>\<open>for idx in range(NUM_SQL_RETRIES)\<close>, with \<open>k\<close> iterations left at index
  \<open>idx\<close>. \<open>act\<close> is \<^verbatim>\<open>actuator(callback)\<close> as a step on the session; \<open>rnd idx\<close> is the raw
  random number of iteration \<open>idx\<close>. \<^verbatim>\<open>OperationalError\<close> of either library: roll back,
  sleep, go on. \<^verbatim>\<open>IntegrityError\<close>: roll back, return \<open>False\<close>. After the loop: \<open>False\<close>.
\<close>

primrec retry_loop ::
  "nat \<Rightarrow> (nat \<Rightarrow> nat) \<Rightarrow> ('db dbsession \<Rightarrow> 'a outcome \<times> 'db dbsession) \<Rightarrow> nat
     \<Rightarrow> 'db dbsession \<Rightarrow> nat list \<Rightarrow> ('a, 'db) retry_run" where
  "retry_loop 0 rnd act idx s zs =
     \<lparr>handed = Gave_False, session_after = s, sleeps = zs, attempts = idx\<rparr>"
| "retry_loop (Suc k) rnd act idx s zs =
     (case act s of
        (Returned v, s1) \<Rightarrow>
          \<lparr>handed = Gave v, session_after = s1, sleeps = zs, attempts = Suc idx\<rparr>
      | (Raised e, s1) \<Rightarrow>
          if e = OperationalError then
            retry_loop k rnd act (Suc idx) (rollback s1) (zs @ [randint 1 30 (rnd idx)])
          else if e = PyMysqlOperationalError then
            retry_loop k rnd act (Suc idx) (rollback s1) (zs @ [randint 1 30 (rnd idx)])
          else if e = IntegrityError then
            \<lparr>handed = Gave_False, session_after = rollback s1, sleeps = zs, attempts = Suc idx\<rparr>
          else
            \<lparr>handed = Threw e, session_after = s1, sleeps = zs, attempts = Suc idx\<rparr>)"

text \<open>
  \<^verbatim>\<open>session_retry(session, callback, actuator, logger)\<close>. \<open>NUM_SQL_RETRIES\<close> is a constant
  of \<^verbatim>\<open>tuna.utils.metadata\<close>, which is not among the sources, and is a parameter.
\<close>

definition session_retry ::
  "nat \<Rightarrow> (nat \<Rightarrow> nat) \<Rightarrow> 'db dbsession \<Rightarrow> 'c
     \<Rightarrow> ('c \<Rightarrow> 'db dbsession \<Rightarrow> 'a outcome \<times> 'db dbsession) \<Rightarrow> ('a, 'db) retry_run" where
  "session_retry NUM_SQL_RETRIES rnd sess callback actuator =
     retry_loop NUM_SQL_RETRIES rnd (actuator callback) 0 sess []"

text \<open>
  The session before the attempt of index \<open>i\<close>, when every earlier attempt met
  contention: each of them was followed by a rollback.
\<close>

primrec session_before ::
  "('db dbsession \<Rightarrow> 'a outcome \<times> 'db dbsession) \<Rightarrow> 'db dbsession \<Rightarrow> nat \<Rightarrow> 'db dbsession" where
  "session_before act s 0 = s"
| "session_before act s (Suc i) = rollback (snd (act (session_before act s i)))"

text \<open>The attempt of index \<open>i\<close> meets contention: it raises an operational error.\<close>

definition contended ::
  "('db dbsession \<Rightarrow> 'a outcome \<times> 'db dbsession) \<Rightarrow> 'db dbsession \<Rightarrow> nat \<Rightarrow> bool" where
  "contended act s i =
     (fst (act (session_before act s i)) = Raised OperationalError
      \<or> fst (act (session_before act s i)) = Raised PyMysqlOperationalError)"

text \<open>
  Example: a callback on a counter that meets contention until the counter, which it
  raises by one at each call, has reached two, and then returns the counter; one that
  violates a constraint at once; and the actuator \<^verbatim>\<open>lambda x: x()\<close>.
\<close>

definition busy_twice :: "nat dbsession \<Rightarrow> nat outcome \<times> nat dbsession" where
  "busy_twice s =
     (if committed s < 2 then (Raised OperationalError, commit (s\<lparr>pending := committed s + 1\<rparr>))
      else (Returned (committed s), s))"

definition duplicate_key :: "nat dbsession \<Rightarrow> nat outcome \<times> nat dbsession" where
  "duplicate_key s = (Raised IntegrityError, s\<lparr>pending := pending s + 1\<rparr>)"

definition always_busy :: "nat dbsession \<Rightarrow> nat outcome \<times> nat dbsession" where
  "always_busy s = (Raised OperationalError, s)"

definition call_it ::
  "('db dbsession \<Rightarrow> 'a outcome \<times> 'db dbsession) \<Rightarrow> 'db dbsession \<Rightarrow> 'a outcome \<times> 'db dbsession" where
  "call_it x = x"

definition fresh :: "nat dbsession" where
  "fresh = \<lparr>committed = 0, pending = 0\<rparr>"

definition dice :: "nat \<Rightarrow> nat" where
  "dice idx = 17 * idx + 44"

section \<open>Checking the fin-steps argument (\<^verbatim>\<open>MIOpen.check_fin_args\<close>)\<close>

text \<open>\<^verbatim>\<open>str.split(sep)\<close> for a separator of one character.\<close>

fun split_str :: "char \<Rightarrow> string \<Rightarrow> string list" where
  "split_str sep [] = [[]]"
| "split_str sep (c # cs) =
     (if c = sep then [] # split_str sep cs
      else (case split_str sep cs of
              [] \<Rightarrow> [[c]]
            | w # ws \<Rightarrow> (c # w) # ws))"

text \<open>\<^verbatim>\<open>str(xs)\<close> for a list of strings without quotes or escapes.\<close>

fun join_str :: "string \<Rightarrow> string list \<Rightarrow> string" where
  "join_str sep [] = []"
| "join_str sep [x] = x"
| "join_str sep (x # y # ys) = x @ sep @ join_str sep (y # ys)"

definition str_of_list :: "string list \<Rightarrow> string" where
  "str_of_list xs = ''['' @ join_str '', '' (map (\<lambda>x. [CHR 0x27] @ x @ [CHR 0x27]) xs) @ '']''"

text \<open>How the check ends when it does not return: \<^verbatim>\<open>parser.error(msg)\<close> or a failed \<^verbatim>\<open>assert\<close>.\<close>

datatype check_error = Parser_error string | Assertion_error

text \<open>
  \<^verbatim>\<open>check_fin_args(self, parser)\<close> on the argument \<^verbatim>\<open>self.args.fin_steps\<close>; the result is the
  new value of \<^verbatim>\<open>self.args.fin_steps\<close>. \<open>valid_fin_steps\<close> are the member names of the
  enumeration \<open>FinStep\<close> of \<^verbatim>\<open>tuna.miopen.db.mixin_tables\<close>, which is not among the sources,
  and are a parameter.
\<close>

definition check_fin_args :: "string list \<Rightarrow> string \<Rightarrow> check_error + string list" where
  "check_fin_args valid_fin_steps arg =
     (if CHR '','' \<in> set arg
      then Inl (Parser_error ''Multiple fin_steps currently not supported'')
      else
        (let f_steps = split_str CHR '','' arg in
         if \<exists>step \<in> set f_steps. step \<notin> set valid_fin_steps
         then Inl (Parser_error (''Supported fin steps are: '' @ str_of_list valid_fin_steps))
         else if length f_steps = 1 then Inr f_steps
         else Inl Assertion_error))"

text \<open>Example: four fin steps.\<close>

definition some_fin_steps :: "string list" where
  "some_fin_steps =
     [''miopen_find_compile'', ''miopen_find_eval'', ''miopen_perf_compile'', ''miopen_perf_eval'']"

section \<open>Worker-pool composition (\<^verbatim>\<open>MIOpen.compose_worker_list\<close>)\<close>

text \<open>The arguments the composition reads (\<^verbatim>\<open>self.args\<close>).\<close>

record args =
  args_restart_machine :: bool
  args_fin_steps :: "string list option"
  args_gpu_lim :: "int option"
  args_update_applicability :: bool
  args_update_solvers :: bool
  args_check_status :: bool
  args_init_session :: bool
  args_execute_cmd :: "string option"

text \<open>
  A machine as the composition sees it: its identifier, the list
  \<^verbatim>\<open>machine.get_avail_gpus()\<close> returns, the list of worker ids \<^verbatim>\<open>get_num_procs(machine)\<close>
  of the interface class returns, and the number of rows the query of pending
  configs (\<^verbatim>\<open>worker.query_cfgs(self.args.label).all()\<close>) returns when the machine is
  reached. The classes behind the three are not among the sources.
\<close>

record machine =
  machine_id :: nat
  avail_gpus :: "int list"
  num_procs :: "int list"
  cfg_rows :: nat

text \<open>A launched worker: its machine, its gpu index and the fin steps it was given.\<close>

record worker =
  worker_machine :: nat
  worker_gpu :: int
  worker_fin_steps :: "string list"

text \<open>\<^verbatim>\<open>worker_ids\<close> is a list, or \<^verbatim>\<open>range(self.args.gpu_lim)\<close>.\<close>

datatype worker_ids = Id_list "int list" | Id_range int

fun ids_len :: "worker_ids \<Rightarrow> nat" where
  "ids_len (Id_list xs) = length xs"
| "ids_len (Id_range n) = nat n"

fun ids_iter :: "worker_ids \<Rightarrow> int list" where
  "ids_iter (Id_list xs) = xs"
| "ids_iter (Id_range n) = map int [0..<nat n]"

text \<open>\<^verbatim>\<open>sub in text\<close> for strings.\<close>

fun starts_with :: "string \<Rightarrow> string \<Rightarrow> bool" where
  "starts_with [] t = True"
| "starts_with (p # ps) [] = False"
| "starts_with (p # ps) (c # cs) = (p = c \<and> starts_with ps cs)"

fun str_in :: "string \<Rightarrow> string \<Rightarrow> bool" where
  "str_in sub [] = (sub = [])"
| "str_in sub (c # cs) = (starts_with sub (c # cs) \<or> str_in sub cs)"

text \<open>
  \<^verbatim>\<open>while len(worker_ids) > proc_lim: worker_ids.pop()\<close> (lines 366-367). A list loses
  its last element; a range has no \<^verbatim>\<open>pop\<close>. \<open>proc_lim\<close> is the quotient of a true
  division, taken here as the real number it approximates.
\<close>

function pop_down :: "real \<Rightarrow> worker_ids \<Rightarrow> exn + worker_ids" where
  "pop_down proc_lim ids =
     (if real (ids_len ids) > proc_lim then
        (case ids of
           Id_range n \<Rightarrow> Inl AttributeError
         | Id_list xs \<Rightarrow> if xs = [] then Inl IndexError else pop_down proc_lim (Id_list (butlast xs)))
      else Inr ids)"
  by pat_completeness auto
termination
  by (relation "measure (\<lambda>(proc_lim, ids). ids_len ids)") auto

declare pop_down.simps [simp del]

text \<open>
  The worker ids of one machine (lines 348-367): the available gpus for an eval
  step, cut to \<^verbatim>\<open>range(gpu_lim)\<close> when a limit below their number is set, else the
  process slots; for the update of applicability, popped down to
  \<^verbatim>\<open>proc_lim = (len_rows + 99) / 100\<close>.
\<close>

definition machine_worker_ids :: "args \<Rightarrow> machine \<Rightarrow> exn + worker_ids" where
  "machine_worker_ids a m =
     (let worker_ids =
        (case args_fin_steps a of
           Some (s # ss) \<Rightarrow>
             if str_in ''eval'' s then
               (case args_gpu_lim a of
                  Some l \<Rightarrow> if l \<noteq> 0 \<and> l < int (length (avail_gpus m)) then Id_range l
                            else Id_list (avail_gpus m)
                | None \<Rightarrow> Id_list (avail_gpus m))
             else Id_list (num_procs m)
         | _ \<Rightarrow> Id_list (num_procs m))
      in if args_update_applicability a
         then (let len_rows = cfg_rows m;
                   proc_lim = (real len_rows + 99) / 100
               in pop_down proc_lim worker_ids)
         else Inr worker_ids)"

text \<open>
  \<^verbatim>\<open>launch_worker(gpu_idx, f_vals, worker_lst)\<close>: for the update of applicability a
  worker is started and appended, and the result is \<open>True\<close>; else nothing is appended,
  and the result is \<open>True\<close> only for a status check that \<^verbatim>\<open>check_status\<close> of the
  interface class (a parameter) answers with false.
\<close>

definition launch_worker ::
  "(machine \<Rightarrow> int \<Rightarrow> bool) \<Rightarrow> args \<Rightarrow> machine \<Rightarrow> int \<Rightarrow> worker list \<Rightarrow> bool \<times> worker list" where
  "launch_worker check_status a m gpu_idx worker_lst =
     (if args_update_applicability a
      then (True, worker_lst @ [\<lparr>worker_machine = machine_id m, worker_gpu = gpu_idx,
                                  worker_fin_steps = [''applicability'']\<rparr>])
      else (if args_check_status a then (\<not> check_status m gpu_idx, worker_lst)
            else (False, worker_lst)))"

text \<open>\<^verbatim>\<open>for gpu_idx in worker_ids: if not self.launch_worker(...): break\<close> (lines 379-382).\<close>

fun launch_all ::
  "(machine \<Rightarrow> int \<Rightarrow> bool) \<Rightarrow> args \<Rightarrow> machine \<Rightarrow> int list \<Rightarrow> worker list \<Rightarrow> worker list" where
  "launch_all check_status a m [] worker_lst = worker_lst"
| "launch_all check_status a m (gpu_idx # rest) worker_lst =
     (case launch_worker check_status a m gpu_idx worker_lst of
        (ret, worker_lst1) \<Rightarrow>
          if \<not> ret then worker_lst1 else launch_all check_status a m rest worker_lst1)"

text \<open>
  The loop over the machines (lines 343-384), with the workers launched so far and
  \<open>fin_work_done\<close>. A restart skips the machine; a machine without worker ids ends the
  composition with \<open>None\<close>; the update of solvers is done once and ends the loop; after
  the loop the list of workers is returned.
\<close>

fun compose_loop ::
  "(machine \<Rightarrow> int \<Rightarrow> bool) \<Rightarrow> args \<Rightarrow> machine list \<Rightarrow> worker list \<Rightarrow> bool
     \<Rightarrow> worker list option outcome" where
  "compose_loop check_status a [] worker_lst fin_work_done = Returned (Some worker_lst)"
| "compose_loop check_status a (m # ms) worker_lst fin_work_done =
     (if args_restart_machine a then compose_loop check_status a ms worker_lst fin_work_done
      else
        (case machine_worker_ids a m of
           Inl e \<Rightarrow> Raised e
         | Inr worker_ids \<Rightarrow>
             if ids_len worker_ids = 0 then Returned None
             else if args_update_solvers a \<and> \<not> fin_work_done then Returned (Some worker_lst)
             else compose_loop check_status a ms
                    (launch_all check_status a m (ids_iter worker_ids) worker_lst) fin_work_done))"

definition compose_worker_list ::
  "(machine \<Rightarrow> int \<Rightarrow> bool) \<Rightarrow> args \<Rightarrow> machine list \<Rightarrow> worker list option outcome" where
  "compose_worker_list check_status a machines = compose_loop check_status a machines [] False"

text \<open>
  Example: the update of solvers, and the update of applicability, over a machine
  with two process slots and one with none.
\<close>

definition solver_update :: args where
  "solver_update = \<lparr>args_restart_machine = False, args_fin_steps = None, args_gpu_lim = None,
     args_update_applicability = False, args_update_solvers = True, args_check_status = False,
     args_init_session = False, args_execute_cmd = None\<rparr>"

definition applicability_update :: args where
  "applicability_update = \<lparr>args_restart_machine = False, args_fin_steps = None, args_gpu_lim = None,
     args_update_applicability = True, args_update_solvers = False, args_check_status = False,
     args_init_session = False, args_execute_cmd = None\<rparr>"

definition two_slots :: machine where
  "two_slots = \<lparr>machine_id = 1, avail_gpus = [0], num_procs = [0, 1], cfg_rows = 150\<rparr>"

definition four_slots :: machine where
  "four_slots = \<lparr>machine_id = 3, avail_gpus = [0], num_procs = [0, 1, 2, 3], cfg_rows = 150\<rparr>"

definition no_slots :: machine where
  "no_slots = \<lparr>machine_id = 2, avail_gpus = [], num_procs = [], cfg_rows = 150\<rparr>"

definition status_fine :: "machine \<Rightarrow> int \<Rightarrow> bool" where
  "status_fine m gpu_idx = True"

section \<open>The worker poll loop (\<^verbatim>\<open>RocMLIRWorker\<close>, \<^verbatim>\<open>tuna/rocmlir/rocmlir_worker.py\<close>)\<close>

text \<open>A row of the results table, and the five fields \<^verbatim>\<open>obj.parse(result_str)\<close> returns.\<close>

record result_row =
  res_valid :: int
  res_session :: int
  res_arch :: string
  res_config :: int
  res_config_str :: string
  res_perf_config :: string
  res_kernel_tflops :: string

record parsed =
  p_arch :: string
  p_num_cu :: string
  p_config :: string
  p_perf_config :: "string option"
  p_tflops :: string

text \<open>
  What the worker has in the store: the row of its job (config, state, result text)
  and the results table.
\<close>

record worker_db =
  wjob_config :: int
  wjob_state :: string
  wjob_result :: string
  results_table :: "result_row list"

text \<open>
  Modelled from the spec: \<^verbatim>\<open>set_job_state\<close> of the worker interface class is not among
  the sources. The spec has the job's state become \<open>running\<close>, \<open>completed\<close> or \<open>error\<close>, with
  the captured output or the exception as the result text; the call sites pass
  \<^verbatim>\<open>(state)\<close> or \<^verbatim>\<open>(state, result=...)\<close>.
\<close>

definition worker_set_job_state :: "worker_db \<Rightarrow> string \<Rightarrow> string option \<Rightarrow> worker_db" where
  "worker_set_job_state db st res =
     (case res of
        None \<Rightarrow> db\<lparr>wjob_state := st\<rparr>
      | Some txt \<Rightarrow> db\<lparr>wjob_state := st, wjob_result := txt\<rparr>)"

text \<open>The sanity check of \<^verbatim>\<open>update_result_table\<close> (line 82): the parse gave no usable data.\<close>

definition bad_data :: "parsed \<Rightarrow> bool" where
  "bad_data p =
     (p_perf_config p = None \<or> p_perf_config p = Some [] \<or> p_perf_config p = Some ''None''
      \<or> p_tflops p = ''-inf'')"

text \<open>
  \<^verbatim>\<open>update_result_table(session, result_str)\<close>. The class of the results table with its
  \<^verbatim>\<open>parse\<close> is not among the sources; \<open>parse\<close> is a parameter, as is \<open>insert_fault\<close>, which
  says whether the store raises on the insert of a row. \<open>sid\<close> is \<^verbatim>\<open>self.dbt.session.id\<close>.
\<close>

definition update_result_table ::
  "(string \<Rightarrow> parsed) \<Rightarrow> (result_row \<Rightarrow> exn option) \<Rightarrow> int \<Rightarrow> string \<Rightarrow> worker_db dbsession
     \<Rightarrow> bool outcome \<times> worker_db dbsession" where
  "update_result_table parse insert_fault sid result_str sess =
     (let p = parse result_str in
      if bad_data p then (Returned True, sess)
      else
        (let obj = \<lparr>res_valid = 1, res_session = sid, res_arch = p_arch p,
                     res_config = wjob_config (pending sess), res_config_str = p_config p,
                     res_perf_config = the (p_perf_config p), res_kernel_tflops = p_tflops p\<rparr>
         in case insert_fault obj of
              Some e \<Rightarrow> (Raised e, sess)
            | None \<Rightarrow>
                (Returned True,
                 commit (sess\<lparr>pending := (pending sess)
                           \<lparr>results_table := results_table (pending sess) @ [obj]\<rparr>\<rparr>))))"

text \<open>
  \<^verbatim>\<open>process_result(result_str)\<close>: a session is opened on the store, the update runs
  under \<^verbatim>\<open>session_retry\<close> with the actuator \<^verbatim>\<open>func(session, result_str)\<close>, and what the
  helper hands back is returned; the store keeps what was committed.
\<close>

definition process_result ::
  "nat \<Rightarrow> (nat \<Rightarrow> nat) \<Rightarrow> (string \<Rightarrow> parsed) \<Rightarrow> (result_row \<Rightarrow> exn option) \<Rightarrow> int
     \<Rightarrow> worker_db \<Rightarrow> string \<Rightarrow> (bool, worker_db) retry_run" where
  "process_result NUM_SQL_RETRIES rnd parse insert_fault sid db result_str =
     session_retry NUM_SQL_RETRIES rnd \<lparr>committed = db, pending = db\<rparr>
       (update_result_table parse insert_fault sid) (\<lambda>func. func result_str)"

text \<open>\<^verbatim>\<open>s.replace(c, rep)\<close> for a character \<open>c\<close>.\<close>

definition replace_char :: "char \<Rightarrow> string \<Rightarrow> string \<Rightarrow> string" where
  "replace_char c rep s = concat (map (\<lambda>x. if x = c then rep else [x]) s)"

text \<open>\<^verbatim>\<open>str(n)\<close> for an integer.\<close>

fun str_nat :: "nat \<Rightarrow> string" where
  "str_nat n = (if n < 10 then [char_of (48 + n)] else str_nat (n div 10) @ [char_of (48 + n mod 10)])"

declare str_nat.simps [simp del]

definition str_int :: "int \<Rightarrow> string" where
  "str_int i = (if i < 0 then CHR ''-'' # str_nat (nat (- i)) else str_nat (nat i))"

text \<open>\<^verbatim>\<open>str(exc)\<close>, as far as the model tells exceptions apart.\<close>

fun str_exn :: "exn \<Rightarrow> string" where
  "str_exn (OtherError txt) = txt"
| "str_exn OperationalError = ''OperationalError''"
| "str_exn PyMysqlOperationalError = ''OperationalError''"
| "str_exn IntegrityError = ''IntegrityError''"
| "str_exn DataError = ''DataError''"
| "str_exn UnboundLocalError = ''UnboundLocalError''"
| "str_exn AttributeError = ''AttributeError''"
| "str_exn IndexError = ''IndexError''"

text \<open>
  What \<^verbatim>\<open>self.run_cmd()\<close> does: it raises \<open>ValueError\<close>, raises something else, or returns
  the exit code and the output of the external process.
\<close>

datatype cmd_outcome = Value_error string | Cmd_raised string | Cmd_done int string

text \<open>
  The body of one attempt (lines 139-154). The result says whether an exception
  leaves the body, and with which text.
\<close>

definition attempt_body ::
  "nat \<Rightarrow> (nat \<Rightarrow> nat) \<Rightarrow> (string \<Rightarrow> parsed) \<Rightarrow> (result_row \<Rightarrow> exn option) \<Rightarrow> int
     \<Rightarrow> cmd_outcome \<Rightarrow> worker_db \<Rightarrow> string option \<times> worker_db" where
  "attempt_body NUM_SQL_RETRIES rnd parse insert_fault sid cmd db =
     (case cmd of
        Value_error verr \<Rightarrow> (None, worker_set_job_state db ''error'' (Some verr))
      | Cmd_raised txt \<Rightarrow> (Some txt, db)
      | Cmd_done retcode cmd_output \<Rightarrow>
          if retcode \<noteq> 0 then
            (let quoted_output = replace_char (CHR 0x27) [CHR 0x5C, CHR 0x27] cmd_output;
                 msg = ''Error code '' @ str_int retcode @ '', output '' @ quoted_output
             in (None, worker_set_job_state db ''error'' (Some msg)))
          else
            (let string = replace_char CHR '':'' [CHR 0x5C, CHR '':''] cmd_output;
                 db1 = worker_set_job_state db ''completed'' (Some string);
                 run = process_result NUM_SQL_RETRIES rnd parse insert_fault sid db1 string
             in case handed run of
                  Threw e \<Rightarrow> (Some (str_exn e), committed (session_after run))
                | _ \<Rightarrow> (None, committed (session_after run))))"

text \<open>
  \<^verbatim>\<open>Retrying(stop=stop_after_attempt(3), reraise=True, ...)\<close>: the body is run again
  after an exception, and the exception of the last attempt is raised. \<open>run_cmd i\<close> is
  what the command does at the attempt of index \<open>i\<close>.
\<close>

primrec retrying ::
  "nat \<Rightarrow> nat \<Rightarrow> (nat \<Rightarrow> worker_db \<Rightarrow> string option \<times> worker_db) \<Rightarrow> worker_db
     \<Rightarrow> string option \<times> worker_db" where
  "retrying 0 idx body db = (None, db)"
| "retrying (Suc k) idx body db =
     (case body idx db of
        (None, db1) \<Rightarrow> (None, db1)
      | (Some txt, db1) \<Rightarrow> if k = 0 then (Some txt, db1) else retrying k (Suc idx) body db1)"

text \<open>
  \<^verbatim>\<open>step()\<close>. \<open>acquired\<close> is the answer of \<^verbatim>\<open>self.get_job("new", "running", False)\<close> of the
  interface class. The result is the value returned and the store afterwards.
\<close>

definition step ::
  "nat \<Rightarrow> (nat \<Rightarrow> nat) \<Rightarrow> (string \<Rightarrow> parsed) \<Rightarrow> (result_row \<Rightarrow> exn option) \<Rightarrow> int
     \<Rightarrow> bool \<Rightarrow> (nat \<Rightarrow> cmd_outcome) \<Rightarrow> worker_db \<Rightarrow> bool \<times> worker_db" where
  "step NUM_SQL_RETRIES rnd parse insert_fault sid acquired run_cmd db =
     (if \<not> acquired then (False, db)
      else
        (let db0 = worker_set_job_state db ''running'' None in
         case retrying 3 0
                (\<lambda>i. attempt_body NUM_SQL_RETRIES rnd parse insert_fault sid (run_cmd i)) db0 of
           (None, db1) \<Rightarrow> (True, db1)
         | (Some txt, db1) \<Rightarrow>
             (True, worker_set_job_state db1 ''error''
                      (Some (replace_char (CHR 0x27) [CHR 0x5C, CHR 0x27] txt)))))"





section \<open>Lemmas on the job table\<close>

lemma job_row_map:
  "(\<And>r. jid (f r) = jid r) \<Longrightarrow> job_row (map f tbl) i = map_option f (job_row tbl i)"
  by (induction tbl) (auto simp: job_row_def)

lemma job_row_jid: "job_row tbl i = Some r \<Longrightarrow> jid r = i"
  by (induction tbl) (auto simp: job_row_def split: if_splits)

lemma job_row_map_other:
  "(\<And>r. jid (f r) = jid r) \<Longrightarrow> (\<And>r. jid r = i \<Longrightarrow> f r = r)
     \<Longrightarrow> job_row (map f tbl) i = job_row tbl i"
  by (induction tbl) (auto simp: job_row_def)

text \<open>What \<^verbatim>\<open>set_job_state\<close> leaves in the store.\<close>

lemma set_job_state_closed:
  "pending (fst (set_job_state sess jb st inc res)) = committed (fst (set_job_state sess jb st inc res))"
  by (simp add: set_job_state_def Let_def commit_def)

lemma set_job_state_jid: "jid (snd (set_job_state sess jb st inc res)) = jid jb"
  by (simp add: set_job_state_def Let_def)

lemma set_job_state_retries:
  "retries (snd (set_job_state sess jb st inc res)) = (if inc then retries jb + 1 else retries jb)"
  by (simp add: set_job_state_def Let_def)

lemma set_job_state_row:
  "job_row (committed (fst (set_job_state sess jb st inc res))) (jid jb) =
     map_option (\<lambda>row. row\<lparr>state := st, result := res,
                    retries := (if inc then retries jb + 1 else retries row)\<rparr>)
       (job_row (pending sess) (jid jb))"
proof -
  let ?upd = "\<lambda>row. if jid row = jid jb
      then row\<lparr>state := st, result := res,
                retries := (if inc then retries jb + 1 else retries row)\<rparr>
      else row"
  have c: "committed (fst (set_job_state sess jb st inc res)) = map ?upd (pending sess)"
    by (simp add: set_job_state_def Let_def commit_def)
  have "job_row (map ?upd (pending sess)) (jid jb) = map_option ?upd (job_row (pending sess) (jid jb))"
    by (rule job_row_map) simp
  then show ?thesis
    unfolding c by (cases "job_row (pending sess) (jid jb)") (auto dest: job_row_jid)
qed

lemma set_job_state_other_row:
  "i \<noteq> jid jb \<Longrightarrow>
     job_row (committed (fst (set_job_state sess jb st inc res))) i = job_row (pending sess) i"
proof -
  assume ne: "i \<noteq> jid jb"
  let ?upd = "\<lambda>row. if jid row = jid jb
      then row\<lparr>state := st, result := res,
                retries := (if inc then retries jb + 1 else retries row)\<rparr>
      else row"
  have c: "committed (fst (set_job_state sess jb st inc res)) = map ?upd (pending sess)"
    by (simp add: set_job_state_def Let_def commit_def)
  have "job_row (map ?upd (pending sess)) i = job_row (pending sess) i"
    by (rule job_row_map_other) (use ne in auto)
  then show ?thesis unfolding c .
qed

section \<open>Ingestion under a store error\<close>

lemma eval_except_operational:
  "eval_except OperationalError sess jb rs =
     (Returned True, fst (set_job_state (rollback sess) jb ''errored'' False rs))"
  by (simp add: eval_except_def)

lemma eval_raise_reaches_except:
  assumes "has_eval_key (Some d)" and "\<And>k. pfk k sess = (Raised e, sess1)"
  shows "process_eval_results pfk gfr cct sess (Some d) jb = eval_except e sess1 jb []"
proof -
  from assms(1) have "d \<noteq> []"
    by (auto simp: has_eval_key_def)
  with assms show ?thesis
    by (auto simp: process_eval_results_def has_eval_key_def Let_def)
qed

text \<open>
  The clause catches the \<open>OperationalError\<close> of \<^verbatim>\<open>sqlalchemy.exc\<close> (line 37); the one of
  the driver is another class and leaves the ingestion, with the session as the
  failed update left it.
\<close>

lemma eval_driver_error_leaves:
  assumes "has_eval_key (Some d)" and "\<And>k. pfk k sess = (Raised PyMysqlOperationalError, sess1)"
  shows "process_eval_results pfk gfr cct sess (Some d) jb = (Raised PyMysqlOperationalError, sess1)"
  using eval_raise_reaches_except [OF assms(1), of pfk sess PyMysqlOperationalError sess1 gfr cct jb]
    assms(2) by (simp add: eval_except_def)

text \<open>
  C1, as the code has it. When the find-db update of an eval-result ingestion raises
  the \<open>OperationalError\<close> that the clause catches, the ingestion returns \<open>True\<close>; the
  transaction is rolled back, so nothing the failed update left pending survives
  (every other job row is as it was committed, and the session has no pending
  difference); and then the job is moved to \<open>errored\<close>, its \<open>retries\<close> as committed.
\<close>

theorem eval_contention_rolls_back_then_errors:
  assumes "has_eval_key (Some d)"
    and "\<And>k. pfk k sess = (Raised OperationalError, sess1)"
    and "job_row (committed sess1) (jid ctx_job) = Some r"
  shows "fst (process_eval_results pfk gfr cct sess (Some d) ctx_job) = Returned True
    \<and> pending (snd (process_eval_results pfk gfr cct sess (Some d) ctx_job))
        = committed (snd (process_eval_results pfk gfr cct sess (Some d) ctx_job))
    \<and> state_retries (snd (process_eval_results pfk gfr cct sess (Some d) ctx_job)) (jid ctx_job)
        = Some (''errored'', retries r)
    \<and> (\<forall>i. i \<noteq> jid ctx_job \<longrightarrow>
          job_row (committed (snd (process_eval_results pfk gfr cct sess (Some d) ctx_job))) i
            = job_row (committed sess1) i)"
proof -
  let ?out = "process_eval_results pfk gfr cct sess (Some d) ctx_job"
  have out: "?out = (Returned True, fst (set_job_state (rollback sess1) ctx_job ''errored'' False []))"
    using eval_raise_reaches_except [OF assms(1), of pfk sess OperationalError sess1 gfr cct ctx_job]
      assms(2) by (simp add: eval_except_operational)
  have p: "pending (rollback sess1) = committed sess1"
    by (simp add: rollback_def)
  have row: "state_retries (snd ?out) (jid ctx_job) = Some (''errored'', retries r)"
    unfolding out state_retries_def using assms(3) by (simp add: set_job_state_row p)
  have others: "\<forall>i. i \<noteq> jid ctx_job \<longrightarrow> job_row (committed (snd ?out)) i = job_row (committed sess1) i"
    unfolding out by (simp add: set_job_state_other_row p)
  have closed: "pending (snd ?out) = committed (snd ?out)"
    unfolding out by (simp add: set_job_state_closed)
  from out row others closed show ?thesis by simp
qed

theorem eval_contention_rolls_back_then_errors_witness:
  "has_eval_key eval_payload
   \<and> fdb_writes_then_contention ''miopen_find_eval_result'' two_job_sess
       = (Raised OperationalError, half_written)
   \<and> state_retries \<lparr>committed = pending half_written, pending = pending half_written\<rparr> 1
       = Some (''evaluated'', 5)
   \<and> job_row (pending half_written) 2 = Some (other_job\<lparr>state := ''evaluated'', retries := 6\<rparr>)
   \<and> job_row (committed half_written) (jid cx_job) = Some cx_job
   \<and> fst (process_eval_results fdb_writes_then_contention fin_result_of cache_cleaned
         two_job_sess eval_payload cx_job) = Returned True
   \<and> state_retries (snd (process_eval_results fdb_writes_then_contention fin_result_of
         cache_cleaned two_job_sess eval_payload cx_job)) 1 = Some (''errored'', 0)
   \<and> job_row (committed (snd (process_eval_results fdb_writes_then_contention fin_result_of
         cache_cleaned two_job_sess eval_payload cx_job))) 2 = Some other_job
   \<and> pending (snd (process_eval_results fdb_writes_then_contention fin_result_of
         cache_cleaned two_job_sess eval_payload cx_job))
       = committed (snd (process_eval_results fdb_writes_then_contention fin_result_of
         cache_cleaned two_job_sess eval_payload cx_job))"
proof -
  have k: "has_eval_key (Some [(''miopen_find_eval_result'', ())])"
    by (simp add: has_eval_key_def)
  have f: "\<And>k. fdb_writes_then_contention k two_job_sess = (Raised OperationalError, half_written)"
    by (simp add: fdb_writes_then_contention_def half_written_def)
  have r: "job_row (committed half_written) (jid cx_job) = Some cx_job"
    by (simp add: job_row_def half_written_def two_job_sess_def)
  have j: "jid cx_job = 1" and z: "retries cx_job = 0"
    by (simp_all add: cx_job_def)
  have dirty: "state_retries \<lparr>committed = pending half_written, pending = pending half_written\<rparr> 1
       = Some (''evaluated'', 5)"
    by (simp add: state_retries_def job_row_def half_written_def two_job_sess_def cx_job_def)
  have dirty2: "job_row (pending half_written) 2 = Some (other_job\<lparr>state := ''evaluated'', retries := 6\<rparr>)"
    by (simp add: job_row_def half_written_def two_job_sess_def cx_job_def other_job_def)
  have o: "job_row (committed half_written) 2 = Some other_job"
    by (simp add: job_row_def half_written_def two_job_sess_def cx_job_def other_job_def)
  show ?thesis
    using eval_contention_rolls_back_then_errors
      [where d = "[(''miopen_find_eval_result'', ())]" and pfk = fdb_writes_then_contention
         and sess = two_job_sess and ?sess1.0 = half_written and ctx_job = cx_job and r = cx_job
         and gfr = fin_result_of and cct = cache_cleaned] k f r j z dirty dirty2 o
    by (simp add: eval_payload_def)
qed

text \<open>
  C1, as stated, fails: a job in \<open>eval_start\<close> whose ingestion meets lock contention is
  in \<open>errored\<close> afterwards, not in the state it had before the attempt.
\<close>

theorem eval_contention_state_counterexample:
  "map_option state (job_row (committed cx_sess) 1) = Some ''eval_start''
   \<and> map_option state (job_row (committed (snd (process_eval_results fdb_contention fin_result_of
         cache_cleaned cx_sess eval_payload cx_job))) 1) = Some ''errored''
   \<and> map_option state (job_row (committed (snd (process_eval_results fdb_contention fin_result_of
         cache_cleaned cx_sess eval_payload cx_job))) 1)
       \<noteq> map_option state (job_row (committed cx_sess) 1)"
  by (simp add: process_eval_results_def eval_payload_def fdb_contention_def eval_except_def
      set_job_state_def rollback_def commit_def cx_sess_def cx_job_def job_row_def Let_def)

section \<open>The retry rule of eval-result ingestion\<close>

lemma eval_transition_failed:
  assumes "job_row (pending sess) (jid jb) = Some r"
  shows "fst (eval_transition cct sess jb True rs) = Returned True
    \<and> pending (snd (eval_transition cct sess jb True rs))
        = committed (snd (eval_transition cct sess jb True rs))
    \<and> job_row (committed (snd (eval_transition cct sess jb True rs))) (jid jb)
        = Some (if retries jb \<ge> MAX_ERRORED_JOB_RETRIES - 1
                then r\<lparr>state := ''errored'', result := rs\<rparr>
                else r\<lparr>state := ''compiled'', result := rs, retries := retries jb + 1\<rparr>)"
  using assms
  by (simp add: eval_transition_def Let_def set_job_state_row set_job_state_closed)

lemma eval_transition_succeeded:
  assumes "job_row (pending sess) (jid jb) = Some r" and "\<And>j. cct j = None"
  shows "fst (eval_transition cct sess jb False rs) = Returned True
    \<and> pending (snd (eval_transition cct sess jb False rs))
        = committed (snd (eval_transition cct sess jb False rs))
    \<and> job_row (committed (snd (eval_transition cct sess jb False rs))) (jid jb)
        = Some (r\<lparr>state := ''evaluated'', result := rs\<rparr>)"
proof -
  obtain s1 j1 where sj: "set_job_state sess jb ''evaluated'' False rs = (s1, j1)"
    by (cases "set_job_state sess jb ''evaluated'' False rs")
  then have s1: "s1 = fst (set_job_state sess jb ''evaluated'' False rs)"
    by simp
  have "eval_transition cct sess jb False rs = (Returned True, s1)"
    by (simp add: eval_transition_def sj assms(2))
  then show ?thesis
    using assms(1) by (simp add: s1 set_job_state_row set_job_state_closed)
qed

lemma process_eval_results_fails:
  assumes "eval_fails pfk gfr fin_json"
  shows "\<exists>rs. process_eval_results pfk gfr cct sess fin_json jb = eval_transition cct sess jb True rs"
proof (cases fin_json)
  case None
  then show ?thesis by (auto simp: process_eval_results_def)
next
  case (Some d)
  show ?thesis
  proof (cases "d = []")
    case True
    with Some show ?thesis by (auto simp: process_eval_results_def)
  next
    case False
    with Some assms have k: "has_eval_key (Some d)" and rep: "reports pfk gfr False"
      by (auto simp: eval_fails_def)
    from rep obtain st1 where 1: "pfk ''miopen_find_eval_result'' sess = (Returned st1, sess)"
        and f1: "fst (gfr st1) = False"
      unfolding reports_def by blast
    from rep obtain st2 where 2: "pfk ''miopen_perf_eval_result'' sess = (Returned st2, sess)"
        and f2: "fst (gfr st2) = False"
      unfolding reports_def by blast
    from f1 obtain rs1 where g1: "gfr st1 = (False, rs1)" by (cases "gfr st1") simp
    from f2 obtain rs2 where g2: "gfr st2 = (False, rs2)" by (cases "gfr st2") simp
    show ?thesis
    proof (cases "''miopen_find_eval_result'' \<in> set (map fst d)")
      case True
      with Some False 1 g1 show ?thesis
        by (auto simp: process_eval_results_def Let_def)
    next
      case nf: False
      with k have "''miopen_perf_eval_result'' \<in> set (map fst d)"
        by (auto simp: has_eval_key_def)
      with Some False nf 2 g2 show ?thesis
        by (auto simp: process_eval_results_def Let_def)
    qed
  qed
qed

lemma process_eval_results_succeeds:
  assumes "eval_succeeds pfk gfr cct fin_json"
  shows "\<exists>rs. process_eval_results pfk gfr cct sess fin_json jb = eval_transition cct sess jb False rs"
proof -
  from assms obtain d where Some: "fin_json = Some d" and k: "has_eval_key (Some d)"
      and rep: "reports pfk gfr True"
    by (cases fin_json) (auto simp: eval_succeeds_def has_eval_key_def)
  from k have ne: "d \<noteq> []" by (auto simp: has_eval_key_def)
  from rep obtain st1 where 1: "pfk ''miopen_find_eval_result'' sess = (Returned st1, sess)"
      and f1: "fst (gfr st1) = True"
    unfolding reports_def by blast
  from rep obtain st2 where 2: "pfk ''miopen_perf_eval_result'' sess = (Returned st2, sess)"
      and f2: "fst (gfr st2) = True"
    unfolding reports_def by blast
  from f1 obtain rs1 where g1: "gfr st1 = (True, rs1)" by (cases "gfr st1") simp
  from f2 obtain rs2 where g2: "gfr st2 = (True, rs2)" by (cases "gfr st2") simp
  show ?thesis
  proof (cases "''miopen_find_eval_result'' \<in> set (map fst d)")
    case True
    with Some ne 1 g1 show ?thesis
      by (auto simp: process_eval_results_def Let_def)
  next
    case nf: False
    with k have "''miopen_perf_eval_result'' \<in> set (map fst d)"
      by (auto simp: has_eval_key_def)
    with Some ne nf 2 g2 show ?thesis
      by (auto simp: process_eval_results_def Let_def)
  qed
qed

text \<open>One failing round, and one succeeding round, on the row the session sees.\<close>

lemma eval_round_fails:
  assumes "eval_fails pfk gfr fin_json" and "job_row (pending sess) i = Some r"
  shows "\<exists>r'. job_row (pending (eval_round pfk gfr cct fin_json i sess)) i = Some r'
    \<and> job_row (committed (eval_round pfk gfr cct fin_json i sess)) i = Some r'
    \<and> state r' = (if retries r \<ge> MAX_ERRORED_JOB_RETRIES - 1 then ''errored'' else ''compiled'')
    \<and> retries r' = (if retries r \<ge> MAX_ERRORED_JOB_RETRIES - 1 then retries r else retries r + 1)"
proof -
  have i: "jid r = i" using assms(2) by (rule job_row_jid)
  obtain rs where p: "process_eval_results pfk gfr cct sess fin_json r = eval_transition cct sess r True rs"
    using process_eval_results_fails [OF assms(1)] by blast
  have e: "eval_round pfk gfr cct fin_json i sess = snd (eval_transition cct sess r True rs)"
    by (simp add: eval_round_def assms(2) p)
  from assms(2) i have "job_row (pending sess) (jid r) = Some r" by simp
  from eval_transition_failed [OF this, where cct = cct and rs = rs] show ?thesis
    unfolding e i by (auto split: if_splits)
qed

lemma eval_round_succeeds:
  assumes "eval_succeeds pfk gfr cct fin_json" and "job_row (pending sess) i = Some r"
  shows "\<exists>r'. job_row (committed (eval_round pfk gfr cct fin_json i sess)) i = Some r'
    \<and> state r' = ''evaluated'' \<and> retries r' = retries r"
proof -
  have i: "jid r = i" using assms(2) by (rule job_row_jid)
  obtain rs where p: "process_eval_results pfk gfr cct sess fin_json r = eval_transition cct sess r False rs"
    using process_eval_results_succeeds [OF assms(1)] by blast
  have e: "eval_round pfk gfr cct fin_json i sess = snd (eval_transition cct sess r False rs)"
    by (simp add: eval_round_def assms(2) p)
  from assms(1) have c: "\<And>j. cct j = None" by (simp add: eval_succeeds_def)
  from assms(2) i have "job_row (pending sess) (jid r) = Some r" by simp
  from eval_transition_succeeded [OF this c, where rs = rs] show ?thesis
    unfolding e i by auto
qed

text \<open>
  C2, as the code has it. A failed evaluation of a job whose \<open>retries\<close> is below
  \<open>MAX_ERRORED_JOB_RETRIES - 1 = 2\<close> reverts it to \<open>compiled\<close> and adds one to \<open>retries\<close>;
  a failed evaluation at \<open>retries \<ge> 2\<close> moves it to \<open>errored\<close> and leaves \<open>retries\<close> as it
  is. So a job starting at \<open>retries = 0\<close> that fails three times in a row ends in
  \<open>errored\<close> with \<open>retries = 2\<close>, and one that fails twice and then succeeds ends in
  \<open>evaluated\<close> with \<open>retries = 2\<close>.
\<close>

theorem eval_retry_rule:
  assumes "job_row (pending s0) i = Some r" and "retries r = 0"
    and "eval_fails p1 g1 f1" and "eval_fails p2 g2 f2"
  shows "state_retries (eval_round p1 g1 c1 f1 i s0) i = Some (''compiled'', 1)
    \<and> (eval_fails p3 g3 f3 \<longrightarrow>
         state_retries (eval_round p3 g3 c3 f3 i (eval_round p2 g2 c2 f2 i (eval_round p1 g1 c1 f1 i s0))) i
           = Some (''errored'', 2))
    \<and> (eval_succeeds p3 g3 c3 f3 \<longrightarrow>
         state_retries (eval_round p3 g3 c3 f3 i (eval_round p2 g2 c2 f2 i (eval_round p1 g1 c1 f1 i s0))) i
           = Some (''evaluated'', 2))
    \<and> (\<forall>s q. job_row (pending s) i = Some q \<longrightarrow>
         state_retries (eval_round p1 g1 c1 f1 i s) i
           = Some (if retries q \<ge> MAX_ERRORED_JOB_RETRIES - 1
                   then (''errored'', retries q) else (''compiled'', retries q + 1)))"
proof -
  let ?s1 = "eval_round p1 g1 c1 f1 i s0"
  let ?s2 = "eval_round p2 g2 c2 f2 i ?s1"
  let ?s3 = "eval_round p3 g3 c3 f3 i ?s2"
  obtain r1 where r1: "job_row (pending ?s1) i = Some r1" "job_row (committed ?s1) i = Some r1"
      "state r1 = ''compiled''" "retries r1 = 1"
    using eval_round_fails [OF assms(3) assms(1), of c1] assms(2)
    by (auto simp: MAX_ERRORED_JOB_RETRIES_def)
  obtain r2 where r2: "job_row (pending ?s2) i = Some r2" "retries r2 = 2"
    using eval_round_fails [OF assms(4) r1(1), of c2] r1(4)
    by (auto simp: MAX_ERRORED_JOB_RETRIES_def)
  have first: "state_retries ?s1 i = Some (''compiled'', 1)"
    using r1 by (simp add: state_retries_def)
  have third_fails: "state_retries ?s3 i = Some (''errored'', 2)" if "eval_fails p3 g3 f3"
    using eval_round_fails [OF that r2(1), of c3] r2(2)
    by (auto simp: MAX_ERRORED_JOB_RETRIES_def state_retries_def)
  have third_succeeds: "state_retries ?s3 i = Some (''evaluated'', 2)" if "eval_succeeds p3 g3 c3 f3"
    using eval_round_succeeds [OF that r2(1)] r2(2)
    by (auto simp: state_retries_def)
  have step: "state_retries (eval_round p1 g1 c1 f1 i s) i
           = Some (if retries q \<ge> MAX_ERRORED_JOB_RETRIES - 1
                   then (''errored'', retries q) else (''compiled'', retries q + 1))"
    if "job_row (pending s) i = Some q" for s q
    using eval_round_fails [OF assms(3) that, of c1]
    by (auto simp: state_retries_def)
  from first third_fails third_succeeds step show ?thesis by blast
qed

theorem eval_retry_rule_witness:
  "job_row (pending cx_sess) 1 = Some cx_job \<and> retries cx_job = 0
   \<and> eval_fails (fdb_reports False) fin_result_of eval_payload
   \<and> eval_succeeds (fdb_reports True) fin_result_of cache_cleaned eval_payload
   \<and> state_retries (eval_round (fdb_reports False) fin_result_of cache_cleaned eval_payload 1
        (eval_round (fdb_reports False) fin_result_of cache_cleaned eval_payload 1
          (eval_round (fdb_reports False) fin_result_of cache_cleaned eval_payload 1 cx_sess))) 1
       = Some (''errored'', 2)
   \<and> state_retries (eval_round (fdb_reports True) fin_result_of cache_cleaned eval_payload 1
        (eval_round (fdb_reports False) fin_result_of cache_cleaned eval_payload 1
          (eval_round (fdb_reports False) fin_result_of cache_cleaned eval_payload 1 cx_sess))) 1
       = Some (''evaluated'', 2)"
proof -
  have row: "job_row (pending cx_sess) 1 = Some cx_job"
    by (simp add: job_row_def cx_sess_def cx_job_def)
  have z: "retries cx_job = 0"
    by (simp add: cx_job_def)
  have k: "has_eval_key eval_payload"
    by (simp add: has_eval_key_def eval_payload_def)
  have f: "eval_fails (fdb_reports False) fin_result_of eval_payload"
    using k by (auto simp: eval_fails_def reports_def fdb_reports_def fin_result_of_def)
  have s: "eval_succeeds (fdb_reports True) fin_result_of cache_cleaned eval_payload"
    using k by (auto simp: eval_succeeds_def reports_def fdb_reports_def fin_result_of_def
        cache_cleaned_def)
  have a: "state_retries (eval_round (fdb_reports False) fin_result_of cache_cleaned eval_payload 1
        (eval_round (fdb_reports False) fin_result_of cache_cleaned eval_payload 1
          (eval_round (fdb_reports False) fin_result_of cache_cleaned eval_payload 1 cx_sess))) 1
       = Some (''errored'', 2)"
    using eval_retry_rule [OF row z f f, where ?p3.0 = "fdb_reports False" and ?g3.0 = fin_result_of
        and ?f3.0 = eval_payload and ?c1.0 = cache_cleaned and ?c2.0 = cache_cleaned
        and ?c3.0 = cache_cleaned] f by blast
  have b: "state_retries (eval_round (fdb_reports True) fin_result_of cache_cleaned eval_payload 1
        (eval_round (fdb_reports False) fin_result_of cache_cleaned eval_payload 1
          (eval_round (fdb_reports False) fin_result_of cache_cleaned eval_payload 1 cx_sess))) 1
       = Some (''evaluated'', 2)"
    using eval_retry_rule [OF row z f f, where ?p3.0 = "fdb_reports True" and ?g3.0 = fin_result_of
        and ?f3.0 = eval_payload and ?c1.0 = cache_cleaned and ?c2.0 = cache_cleaned
        and ?c3.0 = cache_cleaned] s by blast
  from row z f s a b show ?thesis by blast
qed

text \<open>
  C2, as stated, fails: after three failed evaluations in a row the job is \<open>errored\<close>
  with \<open>retries = 2\<close>, not \<open>3\<close>.
\<close>

theorem eval_three_failures_counterexample:
  "state_retries (eval_round (fdb_reports False) fin_result_of cache_cleaned eval_payload 1
        (eval_round (fdb_reports False) fin_result_of cache_cleaned eval_payload 1
          (eval_round (fdb_reports False) fin_result_of cache_cleaned eval_payload 1 cx_sess))) 1
     = Some (''errored'', 2)
   \<and> state_retries (eval_round (fdb_reports False) fin_result_of cache_cleaned eval_payload 1
        (eval_round (fdb_reports False) fin_result_of cache_cleaned eval_payload 1
          (eval_round (fdb_reports False) fin_result_of cache_cleaned eval_payload 1 cx_sess))) 1
     \<noteq> Some (''errored'', 3)"
  by (simp add: state_retries_def eval_round_def process_eval_results_def eval_payload_def
      fdb_reports_def fin_result_of_def eval_transition_def set_job_state_def commit_def
      cx_sess_def cx_job_def job_row_def Let_def MAX_ERRORED_JOB_RETRIES_def)

section \<open>What a claim returns\<close>

lemma gen_select_objs_Some:
  assumes "gen_select_objs st q = Some rows" and "list_all cond_plain (conds q)"
  shows "rows = (case limit q of
                   None \<Rightarrow> sort_key (\<lambda>r. (retries r, config r))
                     (filter (\<lambda>r. jid r \<notin> set (locked st) \<and> list_all (\<lambda>c. cond_holds c r) (conds q))
                        (table st))
                 | Some n \<Rightarrow> take (nat n) (sort_key (\<lambda>r. (retries r, config r))
                     (filter (\<lambda>r. jid r \<notin> set (locked st) \<and> list_all (\<lambda>c. cond_holds c r) (conds q))
                        (table st))))"
  using assms
  by (auto simp: gen_select_objs_def get_job_rows_def session_execute_def db_rows_to_obj_def
      Let_def split: if_splits option.splits outcome.splits)

lemma gen_select_objs_sorted:
  assumes "gen_select_objs st q = Some rows" and "list_all cond_plain (conds q)"
  shows "sorted (map (\<lambda>r. (retries r, config r)) rows)"
proof -
  let ?all = "sort_key (\<lambda>r. (retries r, config r))
     (filter (\<lambda>r. jid r \<notin> set (locked st) \<and> list_all (\<lambda>c. cond_holds c r) (conds q)) (table st))"
  have s: "sorted (map (\<lambda>r. (retries r, config r)) ?all)"
    by (rule sorted_sort_key)
  have "sorted (map (\<lambda>r. (retries r, config r)) (take k ?all))" for k
    using s by (simp add: take_map [symmetric] sorted_wrt_take)
  with s show ?thesis
    using gen_select_objs_Some [OF assms] by (cases "limit q") auto
qed

lemma gen_select_objs_member:
  assumes "gen_select_objs st q = Some rows" and "list_all cond_plain (conds q)"
    and "r \<in> set rows"
  shows "r \<in> set (table st) \<and> jid r \<notin> set (locked st) \<and> list_all (\<lambda>c. cond_holds c r) (conds q)"
proof -
  let ?all = "sort_key (\<lambda>r. (retries r, config r))
     (filter (\<lambda>r. jid r \<notin> set (locked st) \<and> list_all (\<lambda>c. cond_holds c r) (conds q)) (table st))"
  have "set rows \<subseteq> set ?all"
    using gen_select_objs_Some [OF assms(1,2)] by (cases "limit q") (auto dest: in_set_takeD)
  with assms(3) have "r \<in> set ?all" by blast
  then show ?thesis by simp
qed

lemma gen_select_objs_limited:
  assumes "gen_select_objs st q = Some rows" and "list_all cond_plain (conds q)"
    and "limit q = Some n"
  shows "int (length rows) \<le> n"
proof -
  from assms have "0 \<le> n"
    by (auto simp: gen_select_objs_def get_job_rows_def session_execute_def
        split: if_splits option.splits outcome.splits)
  moreover have "length rows \<le> nat n"
    using gen_select_objs_Some [OF assms(1,2)] assms(3) by simp
  ultimately show ?thesis by linarith
qed

lemma get_job_objs_query:
  "get_job_objs m st find_state label sid claim_num fin_steps =
     gen_select_objs st
       \<lparr>conds = [Session_eq sid, Valid_eq_1]
            @ (case label of Some (c # cs) \<Rightarrow> [Reason_eq (c # cs)] | _ \<Rightarrow> [])
            @ [Retries_lt m, State_in find_state, fin_step_cond fin_steps],
        limit = claim_limit claim_num\<rparr>"
  by (simp add: get_job_objs_def compose_work_objs_def Let_def split: option.splits list.splits)

lemma fin_step_cond_plain:
  "plain_claim find_state label fin_steps \<Longrightarrow> cond_plain (fin_step_cond fin_steps)"
  by (auto simp: plain_claim_def fin_step_cond_def plain_def split: option.splits list.splits)

lemma plain_claim_conds:
  assumes "plain_claim find_state label fin_steps"
  shows "list_all cond_plain
     ([Session_eq sid, Valid_eq_1]
      @ (case label of Some (c # cs) \<Rightarrow> [Reason_eq (c # cs)] | _ \<Rightarrow> [])
      @ [Retries_lt m, State_in find_state, fin_step_cond fin_steps])"
proof -
  have "cond_plain (fin_step_cond fin_steps)"
    using assms by (rule fin_step_cond_plain)
  moreover have "list_all plain find_state"
    using assms by (simp add: plain_claim_def)
  moreover have "list_all cond_plain (case label of Some (c # cs) \<Rightarrow> [Reason_eq (c # cs)] | _ \<Rightarrow> [])"
    using assms by (auto simp: plain_claim_def split: option.splits list.splits)
  ultimately show ?thesis by simp
qed

lemma claim_limit_zero: "claim_limit (Some 0) = claim_limit None"
  by (simp add: claim_limit_def)

text \<open>
  C3, as the code has it. For states, a label and a fin step that are plain (free of
  the quote and the backslash), the rows a claim returns are in ascending order of
  (retries, config), whatever the batch size, and a claim with a batch size \<open>n\<close> other
  than zero returns at most \<open>n\<close> rows. A batch size of zero is read as no batch size:
  the claim is the one without a batch size, and is not limited. This holds of
  \<^verbatim>\<open>compose_work_objs\<close> for any plain conditions and of \<^verbatim>\<open>get_job_objs\<close>. For jobs with
  retries 2, 0, 1 on the configs A, B, C, a claim of size 3 returns B (retries 0),
  C (retries 1), A (retries 2).
\<close>

theorem claim_bounded_and_ordered:
  "(list_all cond_plain cnds \<and> plain_claim [] None fin_steps
      \<and> compose_work_objs st cnds claim_num fin_steps = Some rows \<longrightarrow>
      sorted (map (\<lambda>r. (retries r, config r)) rows)
      \<and> (\<forall>n. claim_num = Some n \<and> n \<noteq> 0 \<longrightarrow> int (length rows) \<le> n))
   \<and> (plain_claim find_state label fin_steps
      \<and> get_job_objs m st find_state label sid claim_num fin_steps = Some rows' \<longrightarrow>
      sorted (map (\<lambda>r. (retries r, config r)) rows')
      \<and> (\<forall>n. claim_num = Some n \<and> n \<noteq> 0 \<longrightarrow> int (length rows') \<le> n))
   \<and> compose_work_objs st cnds (Some 0) fin_steps = compose_work_objs st cnds None fin_steps
   \<and> get_job_objs m st find_state label sid (Some 0) fin_steps
       = get_job_objs m st find_state label sid None fin_steps
   \<and> map_option (map (\<lambda>r. (config r, retries r)))
        (get_job_objs 10 abc_store [''new''] None 1 (Some 3) None)
       = Some [(cfg_B, 0), (cfg_C, 1), (cfg_A, 2)]"
proof -
  have a: "sorted (map (\<lambda>r. (retries r, config r)) rows)
      \<and> (\<forall>n. claim_num = Some n \<and> n \<noteq> 0 \<longrightarrow> int (length rows) \<le> n)"
    if pc: "list_all cond_plain cnds" and pf: "plain_claim [] None fin_steps"
      and c: "compose_work_objs st cnds claim_num fin_steps = Some rows"
  proof -
    let ?q = "\<lparr>conds = cnds @ [fin_step_cond fin_steps], limit = claim_limit claim_num\<rparr>"
    from c have g: "gen_select_objs st ?q = Some rows"
      by (simp add: compose_work_objs_def)
    have p: "list_all cond_plain (conds ?q)"
      using pc fin_step_cond_plain [OF pf] by simp
    have "int (length rows) \<le> n" if "claim_num = Some n" and "n \<noteq> 0" for n
    proof -
      from that have "limit ?q = Some n" by (simp add: claim_limit_def)
      from gen_select_objs_limited [OF g p this] show ?thesis .
    qed
    with gen_select_objs_sorted [OF g p] show ?thesis by blast
  qed
  have b: "sorted (map (\<lambda>r. (retries r, config r)) rows')
      \<and> (\<forall>n. claim_num = Some n \<and> n \<noteq> 0 \<longrightarrow> int (length rows') \<le> n)"
    if pl: "plain_claim find_state label fin_steps"
      and c: "get_job_objs m st find_state label sid claim_num fin_steps = Some rows'"
  proof -
    let ?q = "\<lparr>conds = [Session_eq sid, Valid_eq_1]
            @ (case label of Some (c # cs) \<Rightarrow> [Reason_eq (c # cs)] | _ \<Rightarrow> [])
            @ [Retries_lt m, State_in find_state, fin_step_cond fin_steps],
        limit = claim_limit claim_num\<rparr>"
    from c have g: "gen_select_objs st ?q = Some rows'"
      by (simp add: get_job_objs_query)
    have p: "list_all cond_plain (conds ?q)"
      using plain_claim_conds [OF pl, of sid m] by simp
    have "int (length rows') \<le> n" if "claim_num = Some n" and "n \<noteq> 0" for n
    proof -
      from that have "limit ?q = Some n" by (simp add: claim_limit_def)
      from gen_select_objs_limited [OF g p this] show ?thesis .
    qed
    with gen_select_objs_sorted [OF g p] show ?thesis by blast
  qed
  have z1: "compose_work_objs st cnds (Some 0) fin_steps = compose_work_objs st cnds None fin_steps"
    by (simp add: compose_work_objs_def claim_limit_zero)
  have z2: "get_job_objs m st find_state label sid (Some 0) fin_steps
       = get_job_objs m st find_state label sid None fin_steps"
    by (simp only: get_job_objs_query claim_limit_zero)
  have c: "map_option (map (\<lambda>r. (config r, retries r)))
        (get_job_objs 10 abc_store [''new''] None 1 (Some 3) None)
       = Some [(cfg_B, 0), (cfg_C, 1), (cfg_A, 2)]"
    by (simp add: get_job_objs_query gen_select_objs_def get_job_rows_def session_execute_def
        db_rows_to_obj_def abc_store_def job_on_def fin_step_cond_def claim_limit_def
        cfg_A_def cfg_B_def cfg_C_def less_eq_prod_def plain_def)
  from a b z1 z2 c show ?thesis by blast
qed

theorem claim_bounded_and_ordered_witness:
  "plain_claim [''new''] None None
   \<and> (3::int) \<noteq> 0
   \<and> get_job_objs 10 abc_store [''new''] None 1 (Some 3) None
       = Some [job_on 2 cfg_B 0, job_on 3 cfg_C 1, job_on 1 cfg_A 2]
   \<and> int (length [job_on 2 cfg_B 0, job_on 3 cfg_C 1, job_on 1 cfg_A 2]) \<le> 3
   \<and> sorted (map (\<lambda>r. (retries r, config r)) [job_on 2 cfg_B 0, job_on 3 cfg_C 1, job_on 1 cfg_A 2])
   \<and> get_job_objs 10 abc_store [''new''] None 1 (Some 0) None
       = get_job_objs 10 abc_store [''new''] None 1 None None"
proof -
  have g: "get_job_objs 10 abc_store [''new''] None 1 (Some 3) None
       = Some [job_on 2 cfg_B 0, job_on 3 cfg_C 1, job_on 1 cfg_A 2]"
    by (simp add: get_job_objs_query gen_select_objs_def get_job_rows_def session_execute_def
        db_rows_to_obj_def abc_store_def job_on_def fin_step_cond_def claim_limit_def
        cfg_A_def cfg_B_def cfg_C_def less_eq_prod_def plain_def)
  have n: "(3::int) \<noteq> 0" by simp
  have p: "plain_claim [''new''] None None"
    by (simp add: plain_claim_def plain_def)
  show ?thesis
    using claim_bounded_and_ordered [where claim_num = "Some 3" and m = 10 and st = abc_store
        and find_state = "[''new'']" and label = None and sid = 1 and fin_steps = None
        and rows' = "[job_on 2 cfg_B 0, job_on 3 cfg_C 1, job_on 1 cfg_A 2]"] g n p
    by blast
qed

text \<open>
  C3, as stated, fails at the batch size 0: the claim is then not limited, and
  returns the three eligible rows.
\<close>

theorem claim_size_zero_counterexample:
  "map_option length (get_job_objs 10 abc_store [''new''] None 1 (Some 0) None) = Some 3
   \<and> \<not> int (length (the (get_job_objs 10 abc_store [''new''] None 1 (Some 0) None))) \<le> 0"
  by (simp add: get_job_objs_query gen_select_objs_def get_job_rows_def session_execute_def
      db_rows_to_obj_def abc_store_def job_on_def fin_step_cond_def claim_limit_def
      cfg_A_def cfg_B_def cfg_C_def less_eq_prod_def plain_def)




text \<open>
  C4, as the code has it. For states, a label and a fin step that are plain (free of
  the quote and the backslash), every row a claim returns is valid, of the given
  session, in one of the acceptable states, strictly below \<open>max_job_retries\<close>, carries
  the label as its reason when a (non-empty) label is given, and passes the fin-step
  filter: its \<open>fin_step\<close> matches \<^verbatim>\<open>%step%\<close> for the first given step, or is \<open>not_fin\<close> when
  none is given. It is also a row of the table that no other claimant holds locked.
\<close>

theorem claimed_rows_satisfy_filters:
  assumes "plain_claim find_state label fin_steps"
    and "get_job_objs max_job_retries st find_state label session_id claim_num fin_steps = Some rows"
    and "r \<in> set rows"
  shows "valid r = 1 \<and> session r = session_id \<and> state r \<in> set find_state
    \<and> retries r < max_job_retries
    \<and> (\<forall>l. label = Some l \<and> l \<noteq> [] \<longrightarrow> reason r = l)
    \<and> (\<forall>s ss. fin_steps = Some (s # ss) \<longrightarrow> sql_like (CHR ''%'' # s @ ''%'') (fin_step r))
    \<and> (fin_steps = None \<or> fin_steps = Some [] \<longrightarrow> fin_step r = ''not_fin'')
    \<and> r \<in> set (table st) \<and> jid r \<notin> set (locked st)"
proof -
  let ?q = "\<lparr>conds = [Session_eq session_id, Valid_eq_1]
            @ (case label of Some (c # cs) \<Rightarrow> [Reason_eq (c # cs)] | _ \<Rightarrow> [])
            @ [Retries_lt max_job_retries, State_in find_state, fin_step_cond fin_steps],
        limit = claim_limit claim_num\<rparr>"
  from assms(2) have g: "gen_select_objs st ?q = Some rows"
    by (simp add: get_job_objs_query)
  have p: "list_all cond_plain (conds ?q)"
    using plain_claim_conds [OF assms(1), of session_id max_job_retries] by simp
  from gen_select_objs_member [OF g p assms(3)]
  have mem: "r \<in> set (table st)" "jid r \<notin> set (locked st)"
    and all: "list_all (\<lambda>c. cond_holds c r) (conds ?q)"
    by blast+
  from all have base: "session r = session_id" "valid r = 1" "retries r < max_job_retries"
      "state r \<in> set find_state"
    and lab: "list_all (\<lambda>c. cond_holds c r)
        (case label of Some (c # cs) \<Rightarrow> [Reason_eq (c # cs)] | _ \<Rightarrow> [])"
    and fin: "cond_holds (fin_step_cond fin_steps) r"
    by simp_all
  from lab have l: "\<forall>l. label = Some l \<and> l \<noteq> [] \<longrightarrow> reason r = l"
    by (auto split: option.splits list.splits)
  from fin have f1: "\<forall>s ss. fin_steps = Some (s # ss) \<longrightarrow> sql_like (CHR ''%'' # s @ ''%'') (fin_step r)"
    and f2: "fin_steps = None \<or> fin_steps = Some [] \<longrightarrow> fin_step r = ''not_fin''"
    by (auto simp: fin_step_cond_def)
  from base l f1 f2 mem show ?thesis by blast
qed

theorem claimed_rows_satisfy_filters_witness:
  "plain_claim [''new''] (Some ''tune'') None
   \<and> get_job_objs 10 abc_store [''new''] (Some ''tune'') 1 (Some 1) None = Some [job_on 2 cfg_B 0]
   \<and> job_on 2 cfg_B 0 \<in> set [job_on 2 cfg_B 0]
   \<and> valid (job_on 2 cfg_B 0) = 1 \<and> session (job_on 2 cfg_B 0) = 1
   \<and> state (job_on 2 cfg_B 0) \<in> set [''new''] \<and> retries (job_on 2 cfg_B 0) < 10
   \<and> reason (job_on 2 cfg_B 0) = ''tune'' \<and> fin_step (job_on 2 cfg_B 0) = ''not_fin''"
proof -
  have p: "plain_claim [''new''] (Some ''tune'') None"
    by (simp add: plain_claim_def plain_def)
  have g: "get_job_objs 10 abc_store [''new''] (Some ''tune'') 1 (Some 1) None = Some [job_on 2 cfg_B 0]"
    by (simp add: get_job_objs_query gen_select_objs_def get_job_rows_def session_execute_def
        db_rows_to_obj_def abc_store_def job_on_def fin_step_cond_def claim_limit_def
        cfg_A_def cfg_B_def cfg_C_def less_eq_prod_def plain_def)
  have m: "job_on 2 cfg_B 0 \<in> set [job_on 2 cfg_B 0]" by simp
  show ?thesis
    using claimed_rows_satisfy_filters [OF p g m] p g by simp
qed

text \<open>
  C4, as stated, fails for a label that is not plain. With the label \<^verbatim>\<open>x' OR '1'='1\<close>
  the claim for session 1 returns a row that is not valid, is of session 2 and has
  another reason than the label.
\<close>

theorem pasted_label_counterexample:
  "get_job_objs 10 or_store [''new''] (Some or_label) 1 (Some 5) None = Some [stray_job]
   \<and> valid stray_job \<noteq> 1 \<and> session stray_job \<noteq> 1 \<and> reason stray_job \<noteq> or_label"
  by (simp add: get_job_objs_query gen_select_objs_def get_job_rows_def session_execute_def
      db_rows_to_obj_def or_store_def or_label_def reads_or_label_def stray_job_def
      fin_step_cond_def claim_limit_def plain_def Let_def)




section \<open>The retry helper: bounded retry, immediate abort\<close>

lemma randint_1_30: "1 \<le> randint 1 30 x \<and> randint 1 30 x \<le> 30"
proof -
  have "x mod 30 < 30" by simp
  then show ?thesis unfolding randint_def by simp
qed

lemma retry_loop_contended:
  assumes "\<forall>i<k. contended act s i" and "k \<le> m"
  shows "retry_loop m rnd act idx s zs =
     retry_loop (m - k) rnd act (idx + k) (session_before act s k)
       (zs @ map (\<lambda>i. randint 1 30 (rnd (idx + i))) [0..<k])"
  using assms
proof (induction k)
  case 0
  then show ?case by simp
next
  case (Suc k)
  then have ih: "retry_loop m rnd act idx s zs =
     retry_loop (m - k) rnd act (idx + k) (session_before act s k)
       (zs @ map (\<lambda>i. randint 1 30 (rnd (idx + i))) [0..<k])"
    by simp
  from Suc.prems have m: "m - k = Suc (m - Suc k)" by simp
  from Suc.prems have c: "contended act s k" by simp
  obtain o1 s1 where a: "act (session_before act s k) = (o1, s1)"
    by (cases "act (session_before act s k)")
  with c have o: "o1 = Raised OperationalError \<or> o1 = Raised PyMysqlOperationalError"
    by (simp add: contended_def)
  have "retry_loop (Suc (m - Suc k)) rnd act (idx + k) (session_before act s k)
       (zs @ map (\<lambda>i. randint 1 30 (rnd (idx + i))) [0..<k])
     = retry_loop (m - Suc k) rnd act (idx + Suc k) (session_before act s (Suc k))
       (zs @ map (\<lambda>i. randint 1 30 (rnd (idx + i))) [0..<Suc k])"
    using o a by auto
  with ih m show ?case by simp
qed

lemma retry_loop_sleeps:
  "\<forall>z \<in> set zs. 1 \<le> z \<and> z \<le> 30 \<Longrightarrow>
     \<forall>z \<in> set (sleeps (retry_loop k rnd act idx s zs)). 1 \<le> z \<and> z \<le> 30"
proof (induction k arbitrary: idx s zs)
  case 0
  then show ?case by simp
next
  case (Suc k)
  obtain o1 s1 where a: "act s = (o1, s1)" by (cases "act s")
  have ext: "\<forall>z \<in> set (zs @ [randint 1 30 (rnd idx)]). 1 \<le> z \<and> z \<le> 30"
    using Suc.prems randint_1_30 [of "rnd idx"] by auto
  show ?case
  proof (cases o1)
    case (Returned v)
    with a Suc.prems show ?thesis by simp
  next
    case (Raised e)
    with a Suc.prems Suc.IH [OF ext] show ?thesis by simp
  qed
qed

lemma retry_loop_attempts: "attempts (retry_loop k rnd act idx s zs) \<le> idx + k"
proof (induction k arbitrary: idx s zs)
  case 0
  then show ?case by simp
next
  case (Suc k)
  obtain o1 s1 where a: "act s = (o1, s1)" by (cases "act s")
  show ?case
  proof (cases o1)
    case (Returned v)
    with a show ?thesis by simp
  next
    case (Raised e)
    have "attempts (retry_loop k rnd act (Suc idx) (rollback s1) (zs @ [randint 1 30 (rnd idx)]))
        \<le> Suc idx + k"
      by (rule Suc.IH)
    with a Raised show ?thesis by simp
  qed
qed

text \<open>
  C5. Let the first \<open>k\<close> attempts meet contention (each is rolled back and followed by
  a sleep). If attempt \<open>k\<close> (within the bound) raises \<open>IntegrityError\<close>, the helper rolls
  back and hands back \<open>False\<close> with no further attempt. If attempt \<open>k\<close> returns, the
  helper hands back the value returned. If all \<open>NUM_SQL_RETRIES\<close> attempts meet
  contention, it hands back \<open>False\<close>. The actuator is never called more than
  \<open>NUM_SQL_RETRIES\<close> times, and every sleep is from 1 to 30 seconds.
\<close>

theorem session_retry_policy:
  "(k < n \<and> (\<forall>i<k. contended (actuator callback) s i)
      \<and> actuator callback (session_before (actuator callback) s k) = (Raised IntegrityError, s1)
     \<longrightarrow> session_retry n rnd s callback actuator
          = \<lparr>handed = Gave_False, session_after = rollback s1,
              sleeps = map (\<lambda>i. randint 1 30 (rnd i)) [0..<k], attempts = Suc k\<rparr>)
   \<and> (k < n \<and> (\<forall>i<k. contended (actuator callback) s i)
      \<and> actuator callback (session_before (actuator callback) s k) = (Returned v, s2)
     \<longrightarrow> session_retry n rnd s callback actuator
          = \<lparr>handed = Gave v, session_after = s2,
              sleeps = map (\<lambda>i. randint 1 30 (rnd i)) [0..<k], attempts = Suc k\<rparr>)
   \<and> ((\<forall>i<n. contended (actuator callback) s i)
     \<longrightarrow> session_retry n rnd s callback actuator
          = \<lparr>handed = Gave_False, session_after = session_before (actuator callback) s n,
              sleeps = map (\<lambda>i. randint 1 30 (rnd i)) [0..<n], attempts = n\<rparr>)
   \<and> attempts (session_retry n rnd s callback actuator) \<le> n
   \<and> (\<forall>z \<in> set (sleeps (session_retry n rnd s callback actuator)). 1 \<le> z \<and> z \<le> 30)"
proof -
  let ?act = "actuator callback"
  let ?zs = "\<lambda>k. map (\<lambda>i. randint 1 30 (rnd i)) [0..<k]"
  have reach: "session_retry n rnd s callback actuator
      = retry_loop (n - k) rnd ?act k (session_before ?act s k) (?zs k)"
    if "\<forall>i<k. contended ?act s i" and "k \<le> n" for k
    using retry_loop_contended [OF that, of rnd 0 "[]"] by (simp add: session_retry_def)
  have integrity: "session_retry n rnd s callback actuator
          = \<lparr>handed = Gave_False, session_after = rollback s1, sleeps = ?zs k, attempts = Suc k\<rparr>"
    if "k < n" and "\<forall>i<k. contended ?act s i"
      and "?act (session_before ?act s k) = (Raised IntegrityError, s1)"
  proof -
    from that(1) have m: "n - k = Suc (n - Suc k)" and le: "k \<le> n" by simp_all
    show ?thesis
      unfolding reach [OF that(2) le] m using that(3) by simp
  qed
  have returned: "session_retry n rnd s callback actuator
          = \<lparr>handed = Gave v, session_after = s2, sleeps = ?zs k, attempts = Suc k\<rparr>"
    if "k < n" and "\<forall>i<k. contended ?act s i"
      and "?act (session_before ?act s k) = (Returned v, s2)"
  proof -
    from that(1) have m: "n - k = Suc (n - Suc k)" and le: "k \<le> n" by simp_all
    show ?thesis
      unfolding reach [OF that(2) le] m using that(3) by simp
  qed
  have exhausted: "session_retry n rnd s callback actuator
          = \<lparr>handed = Gave_False, session_after = session_before ?act s n,
              sleeps = ?zs n, attempts = n\<rparr>"
    if "\<forall>i<n. contended ?act s i"
    using reach [OF that] by simp
  have bound: "attempts (session_retry n rnd s callback actuator) \<le> n"
    using retry_loop_attempts [of n rnd ?act 0 s "[]"] by (simp add: session_retry_def)
  have jitter: "\<forall>z \<in> set (sleeps (session_retry n rnd s callback actuator)). 1 \<le> z \<and> z \<le> 30"
    unfolding session_retry_def by (rule retry_loop_sleeps) simp
  from integrity returned exhausted bound jitter show ?thesis by blast
qed

lemma busy_twice_contended: "\<forall>i<2. contended (call_it busy_twice) fresh i"
proof -
  have 0: "contended (call_it busy_twice) fresh 0"
    by (simp add: contended_def call_it_def busy_twice_def fresh_def)
  have 1: "contended (call_it busy_twice) fresh (Suc 0)"
    by (simp add: contended_def call_it_def busy_twice_def fresh_def rollback_def commit_def)
  have "i = 0 \<or> i = Suc 0" if "i < 2" for i :: nat
    using that by auto
  with 0 1 show ?thesis by auto
qed

lemma always_busy_before: "session_before (call_it always_busy) fresh i = fresh"
  by (induction i) (simp_all add: call_it_def always_busy_def rollback_def fresh_def)

theorem session_retry_policy_witness:
  "(0::nat) < 5
   \<and> call_it duplicate_key (session_before (call_it duplicate_key) fresh 0)
       = (Raised IntegrityError, \<lparr>committed = 0, pending = 1\<rparr>)
   \<and> session_retry 5 dice fresh duplicate_key call_it
       = \<lparr>handed = Gave_False, session_after = fresh, sleeps = [], attempts = 1\<rparr>
   \<and> (2::nat) < 5
   \<and> contended (call_it busy_twice) fresh 0 \<and> contended (call_it busy_twice) fresh 1
   \<and> call_it busy_twice (session_before (call_it busy_twice) fresh 2)
       = (Returned 2, \<lparr>committed = 2, pending = 2\<rparr>)
   \<and> session_retry 5 dice fresh busy_twice call_it
       = \<lparr>handed = Gave 2, session_after = \<lparr>committed = 2, pending = 2\<rparr>,
           sleeps = [15, 2], attempts = 3\<rparr>
   \<and> contended (call_it always_busy) fresh 0 \<and> contended (call_it always_busy) fresh 1
   \<and> contended (call_it always_busy) fresh 2
   \<and> session_retry 3 dice fresh always_busy call_it
       = \<lparr>handed = Gave_False, session_after = fresh, sleeps = [15, 2, 19], attempts = 3\<rparr>"
proof -
  have d0: "\<forall>i<0. contended (call_it duplicate_key) fresh i" by simp
  have d1: "call_it duplicate_key (session_before (call_it duplicate_key) fresh 0)
       = (Raised IntegrityError, \<lparr>committed = 0, pending = 1\<rparr>)"
    by (simp add: call_it_def duplicate_key_def fresh_def)
  have d: "session_retry 5 dice fresh duplicate_key call_it
       = \<lparr>handed = Gave_False, session_after = fresh, sleeps = [], attempts = 1\<rparr>"
    using session_retry_policy [where k = 0 and n = 5 and actuator = call_it
        and callback = duplicate_key and s = fresh and ?s1.0 = "\<lparr>committed = 0, pending = 1\<rparr>"
        and rnd = dice] d0 d1
    by (simp add: rollback_def fresh_def)
  have b0: "\<forall>i<2. contended (call_it busy_twice) fresh i" by (rule busy_twice_contended)
  have b1: "call_it busy_twice (session_before (call_it busy_twice) fresh 2)
       = (Returned 2, \<lparr>committed = 2, pending = 2\<rparr>)"
    by (simp add: numeral_2_eq_2 call_it_def busy_twice_def fresh_def rollback_def commit_def)
  have two: "[0..<2] = [0, Suc 0]" by (simp add: numeral_2_eq_2)
  have b: "session_retry 5 dice fresh busy_twice call_it
       = \<lparr>handed = Gave 2, session_after = \<lparr>committed = 2, pending = 2\<rparr>,
           sleeps = [15, 2], attempts = 3\<rparr>"
    using session_retry_policy [where k = 2 and n = 5 and actuator = call_it
        and callback = busy_twice and s = fresh and ?s2.0 = "\<lparr>committed = 2, pending = 2\<rparr>"
        and v = 2 and rnd = dice] b0 b1
    by (simp add: two randint_def dice_def)
  have a0: "\<forall>i<3. contended (call_it always_busy) fresh i"
    by (simp add: contended_def always_busy_before) (simp add: call_it_def always_busy_def)
  have three: "[0..<3] = [0, Suc 0, Suc (Suc 0)]" by (simp add: numeral_3_eq_3)
  have a: "session_retry 3 dice fresh always_busy call_it
       = \<lparr>handed = Gave_False, session_after = fresh, sleeps = [15, 2, 19], attempts = 3\<rparr>"
    using session_retry_policy [where n = 3 and actuator = call_it
        and callback = always_busy and s = fresh and rnd = dice] a0
    by (simp add: three randint_def dice_def always_busy_before)
  from b0 have b01: "contended (call_it busy_twice) fresh 0 \<and> contended (call_it busy_twice) fresh 1"
    by simp
  from a0 have a012: "contended (call_it always_busy) fresh 0
      \<and> contended (call_it always_busy) fresh 1 \<and> contended (call_it always_busy) fresh 2"
    by simp
  from d1 d b01 b1 b a012 a show ?thesis by simp
qed

section \<open>One fin step\<close>

lemma split_str_no_sep: "sep \<notin> set s \<Longrightarrow> split_str sep s = [s]"
  by (induction s) auto

text \<open>
  C10. When the check of the fin-steps argument returns, the list it leaves has
  exactly one element, the argument itself, which has no comma and is one of the
  valid fin steps. An argument with a comma is rejected with the parser error for
  multiple fin steps; an argument without a comma that is not a valid step is
  rejected with a parser error; and a valid step without a comma passes.
\<close>

theorem check_fin_args_single_step:
  "(check_fin_args valid_fin_steps arg = Inr steps \<longrightarrow>
      length steps = 1 \<and> steps = [arg] \<and> CHR '','' \<notin> set arg \<and> arg \<in> set valid_fin_steps)
   \<and> (CHR '','' \<in> set arg \<longrightarrow>
      check_fin_args valid_fin_steps arg
        = Inl (Parser_error ''Multiple fin_steps currently not supported''))
   \<and> (CHR '','' \<notin> set arg \<and> arg \<notin> set valid_fin_steps \<longrightarrow>
      check_fin_args valid_fin_steps arg
        = Inl (Parser_error (''Supported fin steps are: '' @ str_of_list valid_fin_steps)))
   \<and> (CHR '','' \<notin> set arg \<and> arg \<in> set valid_fin_steps \<longrightarrow>
      check_fin_args valid_fin_steps arg = Inr [arg])"
proof (cases "CHR '','' \<in> set arg")
  case True
  then show ?thesis by (simp add: check_fin_args_def)
next
  case False
  then have "split_str CHR '','' arg = [arg]" by (rule split_str_no_sep)
  with False show ?thesis by (auto simp: check_fin_args_def Let_def split: if_splits)
qed

theorem check_fin_args_single_step_witness:
  "check_fin_args some_fin_steps ''miopen_find_eval'' = Inr [''miopen_find_eval'']
   \<and> length [''miopen_find_eval''] = 1
   \<and> CHR '','' \<in> set ''miopen_find_compile,miopen_find_eval''
   \<and> check_fin_args some_fin_steps ''miopen_find_compile,miopen_find_eval''
       = Inl (Parser_error ''Multiple fin_steps currently not supported'')
   \<and> CHR '','' \<notin> set ''tune'' \<and> ''tune'' \<notin> set some_fin_steps
   \<and> check_fin_args some_fin_steps ''tune''
       = Inl (Parser_error (''Supported fin steps are: '' @ str_of_list some_fin_steps))"
proof -
  have a: "CHR '','' \<notin> set ''miopen_find_eval'' \<and> ''miopen_find_eval'' \<in> set some_fin_steps"
    by (simp add: some_fin_steps_def)
  have b: "CHR '','' \<in> set ''miopen_find_compile,miopen_find_eval''" by simp
  have c: "CHR '','' \<notin> set ''tune'' \<and> ''tune'' \<notin> set some_fin_steps"
    by (simp add: some_fin_steps_def)
  show ?thesis
    using check_fin_args_single_step [of some_fin_steps "''miopen_find_eval''" "[''miopen_find_eval'']"]
      check_fin_args_single_step [of some_fin_steps "''miopen_find_compile,miopen_find_eval''" "[]"]
      check_fin_args_single_step [of some_fin_steps "''tune''" "[]"]
      a b c
    by simp
qed

section \<open>Composition over machines without workers\<close>

lemma compose_loop_first_without_ids:
  assumes "\<not> args_restart_machine a" and "machine_worker_ids a m = Inr ids" and "ids_len ids = 0"
  shows "compose_loop cs a (m # ms) wl fwd = Returned None"
  using assms by simp

lemma compose_loop_without_ids:
  assumes "\<not> args_restart_machine a" and "\<not> args_update_solvers a"
    and "\<forall>m \<in> set ms. \<exists>ids. machine_worker_ids a m = Inr ids"
    and "\<exists>m \<in> set ms. \<exists>ids. machine_worker_ids a m = Inr ids \<and> ids_len ids = 0"
  shows "compose_loop cs a ms wl fwd = Returned None"
  using assms(3,4)
proof (induction ms arbitrary: wl)
  case Nil
  then show ?case by simp
next
  case (Cons m ms)
  from Cons.prems(1) obtain ids where ids: "machine_worker_ids a m = Inr ids" by auto
  show ?case
  proof (cases "ids_len ids = 0")
    case True
    with assms(1) ids show ?thesis by simp
  next
    case False
    with Cons.prems(2) ids
    have later: "\<exists>m \<in> set ms. \<exists>ids. machine_worker_ids a m = Inr ids \<and> ids_len ids = 0"
      by auto
    from Cons.prems(1) have all: "\<forall>m \<in> set ms. \<exists>ids. machine_worker_ids a m = Inr ids"
      by simp
    have "compose_loop cs a ms (launch_all cs a m (ids_iter ids) wl) fwd = Returned None"
      using all later by (rule Cons.IH)
    with assms(1,2) ids False show ?thesis by simp
  qed
qed

lemma compose_loop_solver_update:
  assumes "\<not> args_restart_machine a" and "args_update_solvers a"
    and "\<forall>m \<in> set ms. \<exists>ids. machine_worker_ids a m = Inr ids"
  shows "compose_loop cs a ms [] False = Returned None
    \<or> compose_loop cs a ms [] False = Returned (Some [])"
proof (cases ms)
  case Nil
  then show ?thesis by simp
next
  case (Cons m rest)
  with assms(3) obtain ids where "machine_worker_ids a m = Inr ids" by auto
  with Cons assms(1,2) show ?thesis by simp
qed

text \<open>
  C7, as the code has it. Without a restart and without the update of solvers, a
  composition in which some machine yields no worker ids (and none raises) returns
  \<open>None\<close>, whatever the other machines yield. With the update of solvers this holds
  when the machine without worker ids is the first one: the update ends the loop at
  the first machine that has worker ids, and later machines are not looked at; the
  composition then returns the empty list of workers. In either case no worker is
  returned.
\<close>

theorem composition_fails_without_worker_ids:
  assumes "\<not> args_restart_machine a"
  shows "(\<not> args_update_solvers a
      \<and> (\<forall>m \<in> set machines. \<exists>ids. machine_worker_ids a m = Inr ids)
      \<and> (\<exists>m \<in> set machines. \<exists>ids. machine_worker_ids a m = Inr ids \<and> ids_len ids = 0)
     \<longrightarrow> compose_worker_list check_status a machines = Returned None)
   \<and> (machine_worker_ids a m1 = Inr ids1 \<and> ids_len ids1 = 0
     \<longrightarrow> compose_worker_list check_status a (m1 # rest) = Returned None)
   \<and> ((\<forall>m \<in> set machines. \<exists>ids. machine_worker_ids a m = Inr ids)
      \<and> (\<exists>m \<in> set machines. \<exists>ids. machine_worker_ids a m = Inr ids \<and> ids_len ids = 0)
     \<longrightarrow> compose_worker_list check_status a machines = Returned None
        \<or> compose_worker_list check_status a machines = Returned (Some []))
   \<and> (args_update_solvers a \<and> machine_worker_ids a m2 = Inr ids2 \<and> ids_len ids2 \<noteq> 0
     \<longrightarrow> compose_worker_list check_status a (m2 # rest2) = Returned (Some []))"
proof -
  have general: "compose_worker_list check_status a machines = Returned None"
    if "\<not> args_update_solvers a"
      and "\<forall>m \<in> set machines. \<exists>ids. machine_worker_ids a m = Inr ids"
      and "\<exists>m \<in> set machines. \<exists>ids. machine_worker_ids a m = Inr ids \<and> ids_len ids = 0"
    unfolding compose_worker_list_def
    using assms that by (rule compose_loop_without_ids)
  have first: "compose_worker_list check_status a (m1 # rest) = Returned None"
    if "machine_worker_ids a m1 = Inr ids1" and "ids_len ids1 = 0"
    unfolding compose_worker_list_def
    using assms that by (rule compose_loop_first_without_ids)
  have either: "compose_worker_list check_status a machines = Returned None
        \<or> compose_worker_list check_status a machines = Returned (Some [])"
    if all: "\<forall>m \<in> set machines. \<exists>ids. machine_worker_ids a m = Inr ids"
      and some: "\<exists>m \<in> set machines. \<exists>ids. machine_worker_ids a m = Inr ids \<and> ids_len ids = 0"
  proof (cases "args_update_solvers a")
    case True
    from compose_loop_solver_update [OF assms True all] show ?thesis
      unfolding compose_worker_list_def .
  next
    case False
    then show ?thesis using all some by (simp add: general)
  qed
  have solver: "compose_worker_list check_status a (m2 # rest2) = Returned (Some [])"
    if "args_update_solvers a" and "machine_worker_ids a m2 = Inr ids2" and "ids_len ids2 \<noteq> 0"
    unfolding compose_worker_list_def using assms that by simp
  from general first either solver show ?thesis by blast
qed

lemma pop_down_keep: "\<not> real (ids_len ids) > proc_lim \<Longrightarrow> pop_down proc_lim ids = Inr ids"
  by (subst pop_down.simps) simp

lemma pop_down_pop:
  "real (length xs) > proc_lim \<Longrightarrow> xs \<noteq> [] \<Longrightarrow>
     pop_down proc_lim (Id_list xs) = pop_down proc_lim (Id_list (butlast xs))"
  by (subst pop_down.simps) simp

lemma machine_worker_ids_slots:
  "machine_worker_ids applicability_update two_slots = Inr (Id_list [0, 1])"
  "machine_worker_ids applicability_update no_slots = Inr (Id_list [])"
  by (simp_all add: machine_worker_ids_def applicability_update_def two_slots_def no_slots_def
      pop_down_keep)

theorem composition_fails_without_worker_ids_witness:
  "\<not> args_restart_machine applicability_update \<and> \<not> args_update_solvers applicability_update
   \<and> machine_worker_ids applicability_update two_slots = Inr (Id_list [0, 1])
   \<and> machine_worker_ids applicability_update no_slots = Inr (Id_list [])
   \<and> ids_len (Id_list []) = 0
   \<and> compose_worker_list status_fine applicability_update [two_slots, no_slots] = Returned None
   \<and> compose_worker_list status_fine applicability_update [no_slots, two_slots] = Returned None"
proof -
  have r: "\<not> args_restart_machine applicability_update"
    and u: "\<not> args_update_solvers applicability_update"
    by (simp_all add: applicability_update_def)
  have all: "\<forall>m \<in> set [two_slots, no_slots]. \<exists>ids. machine_worker_ids applicability_update m = Inr ids"
    by (simp add: machine_worker_ids_slots)
  have z: "machine_worker_ids applicability_update no_slots = Inr (Id_list [])"
    by (rule machine_worker_ids_slots)
  have some: "\<exists>m \<in> set [two_slots, no_slots]. \<exists>ids.
      machine_worker_ids applicability_update m = Inr ids \<and> ids_len ids = 0"
    using z by auto
  have l: "ids_len (Id_list []) = 0" by simp
  have a: "compose_worker_list status_fine applicability_update [two_slots, no_slots] = Returned None"
    using composition_fails_without_worker_ids [OF r, where machines = "[two_slots, no_slots]"
        and check_status = status_fine] u all some by blast
  have b: "compose_worker_list status_fine applicability_update [no_slots, two_slots] = Returned None"
    using composition_fails_without_worker_ids [OF r, where ?m1.0 = no_slots
        and ?ids1.0 = "Id_list []" and rest = "[two_slots]" and check_status = status_fine] z l
    by blast
  have t: "machine_worker_ids applicability_update two_slots = Inr (Id_list [0, 1])"
    by (rule machine_worker_ids_slots)
  from r u t z l a b show ?thesis by blast
qed

text \<open>
  C7, as stated, fails for the update of solvers: with a machine that has worker ids
  first and a machine without worker ids second, the composition returns the empty
  list of workers, not \<open>None\<close>.
\<close>

theorem solver_update_composition_counterexample:
  "\<not> args_restart_machine solver_update
   \<and> machine_worker_ids solver_update no_slots = Inr (Id_list [])
   \<and> ids_len (Id_list []) = 0
   \<and> compose_worker_list status_fine solver_update [two_slots, no_slots] = Returned (Some [])
   \<and> compose_worker_list status_fine solver_update [two_slots, no_slots] \<noteq> Returned None"
  by (simp add: compose_worker_list_def machine_worker_ids_def solver_update_def two_slots_def
      no_slots_def)

section \<open>The cap on workers for the update of applicability\<close>

lemma pop_down_range:
  "real (nat n) > proc_lim \<Longrightarrow> pop_down proc_lim (Id_range n) = Inl AttributeError"
  by (subst pop_down.simps) simp

lemma pop_down_empty:
  "real (length ([]::int list)) > proc_lim \<Longrightarrow> pop_down proc_lim (Id_list []) = Inl IndexError"
  by (subst pop_down.simps) simp

lemma pop_down_le: "pop_down proc_lim ids = Inr ids' \<Longrightarrow> real (ids_len ids') \<le> proc_lim"
proof (induction proc_lim ids rule: pop_down.induct)
  case (1 proc_lim ids)
  show ?case
  proof (cases "real (ids_len ids) > proc_lim")
    case False
    then have "pop_down proc_lim ids = Inr ids" by (rule pop_down_keep)
    with "1.prems" have "ids' = ids" by simp
    with False show ?thesis by simp
  next
    case True
    show ?thesis
    proof (cases ids)
      case (Id_range n)
      with True have "pop_down proc_lim ids = Inl AttributeError"
        using pop_down_range [of proc_lim n] by simp
      with "1.prems" show ?thesis by simp
    next
      case (Id_list xs)
      show ?thesis
      proof (cases "xs = []")
        case e: True
        with True Id_list have "pop_down proc_lim ids = Inl IndexError"
          using pop_down_empty [of proc_lim] by simp
        with "1.prems" show ?thesis by simp
      next
        case ne: False
        from True Id_list have "real (length xs) > proc_lim" by simp
        from pop_down_pop [OF this ne] "1.prems" Id_list
        have rec: "pop_down proc_lim (Id_list (butlast xs)) = Inr ids'" by simp
        from "1.IH" [OF True Id_list ne rec] show ?thesis .
      qed
    qed
  qed
qed

lemma le_ceiling_of_cap:
  assumes "real k \<le> (real n + 99) / 100"
  shows "int k \<le> \<lceil>real n / 100\<rceil>"
proof -
  have "real n / 100 \<le> of_int \<lceil>real n / 100\<rceil>" by (rule le_of_int_ceiling)
  moreover from assms have "real k \<le> real n / 100 + 99 / 100"
    by (simp add: add_divide_distrib)
  ultimately have "real k < of_int \<lceil>real n / 100\<rceil> + 1" by linarith
  then have "real_of_int (int k) < real_of_int (\<lceil>real n / 100\<rceil> + 1)" by simp
  then have "int k < \<lceil>real n / 100\<rceil> + 1" by (simp only: of_int_less_iff)
  then show ?thesis by simp
qed

lemma launch_all_length:
  "length (launch_all cs a m gs wl) \<le> length wl + length gs"
proof (induction gs arbitrary: wl)
  case Nil
  then show ?case by simp
next
  case (Cons g gs)
  have "length (launch_all cs a m gs (wl @ [w])) \<le> length (wl @ [w]) + length gs" for w
    by (rule Cons.IH)
  moreover have "length (launch_all cs a m gs wl) \<le> length wl + length gs"
    by (rule Cons.IH)
  ultimately show ?case
    by (auto simp: launch_worker_def le_Suc_eq)
qed

lemma ids_iter_length: "length (ids_iter ids) = ids_len ids"
  by (cases ids) simp_all

text \<open>
  C8. For the update of applicability, the worker ids retained for a machine number
  at most \<open>\<lceil>len_rows / 100\<rceil>\<close>, where \<open>len_rows\<close> is the number of pending config rows
  counted when the machine is reached, before any worker is launched for it; and a
  composition over that machine launches at most as many workers.
\<close>

theorem applicability_worker_cap:
  assumes "args_update_applicability a"
  shows "(machine_worker_ids a m = Inr ids \<longrightarrow> int (ids_len ids) \<le> \<lceil>real (cfg_rows m) / 100\<rceil>)
   \<and> (compose_worker_list check_status a [m] = Returned (Some ws)
        \<longrightarrow> int (length ws) \<le> \<lceil>real (cfg_rows m) / 100\<rceil>)"
proof -
  have ids: "int (ids_len ids) \<le> \<lceil>real (cfg_rows m) / 100\<rceil>"
    if "machine_worker_ids a m = Inr ids" for ids
  proof -
    from that assms obtain ids0 where "pop_down ((real (cfg_rows m) + 99) / 100) ids0 = Inr ids"
      by (auto simp: machine_worker_ids_def Let_def)
    then have "real (ids_len ids) \<le> (real (cfg_rows m) + 99) / 100"
      by (rule pop_down_le)
    then show ?thesis by (rule le_ceiling_of_cap)
  qed
  have ws: "int (length ws) \<le> \<lceil>real (cfg_rows m) / 100\<rceil>"
    if c: "compose_worker_list check_status a [m] = Returned (Some ws)"
  proof (cases "args_restart_machine a")
    case True
    with c have "ws = []" by (simp add: compose_worker_list_def)
    then show ?thesis by simp
  next
    case False
    show ?thesis
    proof (cases "machine_worker_ids a m")
      case (Inl e)
      with False c show ?thesis by (simp add: compose_worker_list_def)
    next
      case (Inr ids1)
      have cap: "int (ids_len ids1) \<le> \<lceil>real (cfg_rows m) / 100\<rceil>"
        using Inr by (rule ids)
      from False Inr c have "ws = [] \<or> ws = launch_all check_status a m (ids_iter ids1) []"
        by (auto simp: compose_worker_list_def split: if_splits)
      then have "length ws \<le> ids_len ids1"
        using launch_all_length [of check_status a m "ids_iter ids1" "[]"]
        by (auto simp: ids_iter_length)
      with cap show ?thesis by linarith
    qed
  qed
  from ids ws show ?thesis by blast
qed

theorem applicability_worker_cap_witness:
  "args_update_applicability applicability_update
   \<and> machine_worker_ids applicability_update four_slots = Inr (Id_list [0, 1])
   \<and> int (ids_len (Id_list [0, 1])) \<le> \<lceil>real (cfg_rows four_slots) / 100\<rceil>
   \<and> \<lceil>real (cfg_rows four_slots) / 100\<rceil> = 2"
proof -
  have u: "args_update_applicability applicability_update"
    by (simp add: applicability_update_def)
  have m: "machine_worker_ids applicability_update four_slots = Inr (Id_list [0, 1])"
    by (simp add: machine_worker_ids_def applicability_update_def four_slots_def pop_down_keep
        pop_down_pop)
  have c: "\<lceil>real (cfg_rows four_slots) / 100\<rceil> = 2"
    by (simp add: four_slots_def ceiling_eq_iff)
  show ?thesis
    using applicability_worker_cap [OF u, where m = four_slots and ids = "Id_list [0, 1]"] u m c
    by blast
qed

section \<open>A completed job whose output has no usable data\<close>





end
